theory Spec2Isabelle
  imports Main
begin

section \<open>JavaScript values\<close>

text \<open>
  The form component stores arbitrary JavaScript values. They are modelled by the
  datatype \<open>val\<close>: the primitives, dates (as atoms) and the two containers. An object is
  the list of its own enumerable properties in insertion order; an array is its
  \<open>length\<close> together with its own properties, the elements being the properties named by
  canonical index strings (\<open>''0''\<close>, \<open>''1''\<close>, ...), so that a hole is an absent
  property, as in JavaScript. Numbers are the integers and \<open>NaN\<close>.

  Property names are dotted field paths (\<open>''foo.bar''\<close>, \<open>''foo.0''\<close>). The bracket
  syntax of lodash paths, the names \<open>__proto__\<close>, \<open>constructor\<close> and \<open>prototype\<close>,
  and built-in properties of primitives (\<open>length\<close> of a string) are outside the model.
  So is the rule of JavaScript that enumerates the properties named by array indices
  before the others: the properties of an object are enumerated as they were inserted.

  Values are immutable here: a state of the model holds the trees of values that the
  objects of the component hold. lodash \<open>set\<close> works in place, and the component lets
  two of its objects share a nested object in two places (the parsed values share the
  nested objects of the values, and a single-field rollback stores the snapshot value of
  the field in the values without copying it); a write through one of them that shows
  through the other is outside the model.
\<close>

datatype val =
    VUndefined
  | VNull
  | VBool bool
  | VNum int
  | VNaN
  | VStr string
  | VDate int
  | VInvalidDate
  | VObj "(string \<times> val) list"
  | VArr nat "(string \<times> val) list"

type_synonym bag = "(string \<times> val) list"

text \<open>\<open>Object.keys(o)\<close>.\<close>

definition keys :: "(string \<times> 'a) list \<Rightarrow> string list" where
  "keys es = map fst es"

text \<open>\<open>o[k]\<close> on a property list: the value, or \<open>undefined\<close> when \<open>k\<close> is absent.\<close>

definition lookup :: "bag \<Rightarrow> string \<Rightarrow> val" where
  "lookup es k = (case map_of es k of None \<Rightarrow> VUndefined | Some v \<Rightarrow> v)"

text \<open>\<open>o[k] = v\<close>: an existing property keeps its place, a new one goes last.\<close>

fun assign :: "(string \<times> 'a) list \<Rightarrow> string \<Rightarrow> 'a \<Rightarrow> (string \<times> 'a) list" where
  "assign [] k v = [(k, v)]"
| "assign ((k', v') # es) k v = (if k' = k then (k, v) # es else (k', v') # assign es k v)"

text \<open>\<open>delete o[k]\<close>.\<close>

definition delete :: "(string \<times> 'a) list \<Rightarrow> string \<Rightarrow> (string \<times> 'a) list" where
  "delete es k = filter (\<lambda>e. fst e \<noteq> k) es"

text \<open>Property read \<open>v[k]\<close> on any value; a primitive has no own data properties.\<close>

fun getProp :: "val \<Rightarrow> string \<Rightarrow> val" where
  "getProp (VObj es) k = lookup es k"
| "getProp (VArr n es) k = lookup es k"
| "getProp _ k = VUndefined"

text \<open>lodash \<open>isObject\<close>, \<open>isNil\<close>, and JavaScript truthiness (\<open>Boolean(v)\<close>).\<close>

fun isObject :: "val \<Rightarrow> bool" where
  "isObject (VObj es) = True"
| "isObject (VArr n es) = True"
| "isObject _ = False"

fun isNil :: "val \<Rightarrow> bool" where
  "isNil VUndefined = True"
| "isNil VNull = True"
| "isNil _ = False"

fun truthy :: "val \<Rightarrow> bool" where
  "truthy VUndefined = False"
| "truthy VNull = False"
| "truthy (VBool b) = b"
| "truthy (VNum n) = (n \<noteq> 0)"
| "truthy VNaN = False"
| "truthy (VStr s) = (s \<noteq> [])"
| "truthy _ = True"

text \<open>The nullish coalescing operator \<open>a ?? b\<close>.\<close>

definition nullish_or :: "val \<Rightarrow> val \<Rightarrow> val" where
  "nullish_or a b = (if isNil a then b else a)"

subsection \<open>Paths\<close>

text \<open>\<open>key.split('.')\<close>, which is also lodash's \<open>stringToPath\<close> on a key without brackets.\<close>

fun split_dots :: "string \<Rightarrow> string list" where
  "split_dots [] = [[]]"
| "split_dots (c # cs) =
     (if c = CHR ''.'' then [] # split_dots cs
      else (c # hd (split_dots cs)) # tl (split_dots cs))"

definition has_dot :: "string \<Rightarrow> bool" where
  "has_dot k = (CHR ''.'' \<in> set k)"

text \<open>
  lodash \<open>isIndex\<close> on a path segment: \<open>0\<close> or a digit string without leading zero;
  \<open>index_of\<close> is the number it denotes.
\<close>

definition is_digit :: "char \<Rightarrow> bool" where
  "is_digit c = (c \<in> set ''0123456789'')"

definition isIndex :: "string \<Rightarrow> bool" where
  "isIndex s = (s \<noteq> [] \<and> list_all is_digit s \<and> (s = ''0'' \<or> hd s \<noteq> CHR ''0''))"

definition digit_val :: "char \<Rightarrow> nat" where
  "digit_val c = of_char c - of_char (CHR ''0'')"

definition index_of :: "string \<Rightarrow> nat" where
  "index_of s = foldl (\<lambda>n c. 10 * n + digit_val c) 0 s"

text \<open>
  lodash \<open>castPath(key, object)\<close>: a key without a dot, or one that is a property of
  the object as it stands, is a single segment; any other key is split at its dots.
\<close>

definition castPath :: "string \<Rightarrow> bag \<Rightarrow> string list" where
  "castPath k es = (if \<not> has_dot k \<or> k \<in> set (keys es) then [k] else split_dots k)"

subsection \<open>lodash \<open>set\<close>, \<open>unset\<close>, and Ember \<open>get\<close>\<close>

text \<open>
  \<open>assignValue(nested, key, value)\<close> on a container. Writing an index of an array
  moves its length past that index.
\<close>

fun assignKey :: "val \<Rightarrow> string \<Rightarrow> val \<Rightarrow> val" where
  "assignKey (VObj es) k v = VObj (assign es k v)"
| "assignKey (VArr n es) k v =
     VArr (if isIndex k then max n (Suc (index_of k)) else n) (assign es k v)"
| "assignKey w k v = w"

text \<open>
  lodash \<open>baseSet\<close>, the loop over the segments written as a recursion on them: before the
  last segment the slot keeps the object it holds, or is replaced by a new array (when
  the next segment is an index) or a new object; the last segment receives the value.
\<close>

fun baseSet :: "val \<Rightarrow> string list \<Rightarrow> val \<Rightarrow> val" where
  "baseSet nested [] v = nested"
| "baseSet nested [k] v = assignKey nested k v"
| "baseSet nested (k # k' # ks) v =
     (let objValue = getProp nested k;
          newValue = (if isObject objValue then objValue
                      else if isIndex k' then VArr 0 [] else VObj [])
      in assignKey nested k (baseSet newValue (k' # ks) v))"

fun entries :: "val \<Rightarrow> bag" where
  "entries (VObj es) = es"
| "entries (VArr n es) = es"
| "entries _ = []"

text \<open>\<open>_set(object, key, value)\<close> on a top-level object.\<close>

definition lodash_set :: "bag \<Rightarrow> string \<Rightarrow> val \<Rightarrow> bag" where
  "lodash_set es k v = entries (baseSet (VObj es) (castPath k es) v)"

text \<open>\<open>delete nested[key]\<close> on a container; deleting an element leaves the length.\<close>

fun deleteKey :: "val \<Rightarrow> string \<Rightarrow> val" where
  "deleteKey (VObj es) k = VObj (delete es k)"
| "deleteKey (VArr n es) k = VArr n (delete es k)"
| "deleteKey w k = w"

text \<open>
  lodash \<open>baseUnset\<close>: walk to the parent of the last segment and delete there; nothing
  happens when the walk meets \<open>null\<close> or \<open>undefined\<close>.
\<close>

fun baseUnset :: "val \<Rightarrow> string list \<Rightarrow> val" where
  "baseUnset nested [] = nested"
| "baseUnset nested [k] = deleteKey nested k"
| "baseUnset nested (k # k' # ks) =
     (let sub = getProp nested k
      in if isObject sub then assignKey nested k (baseUnset sub (k' # ks)) else nested)"

definition lodash_unset :: "bag \<Rightarrow> string \<Rightarrow> bag" where
  "lodash_unset es k = entries (baseUnset (VObj es) (castPath k es))"

text \<open>
  Ember \<open>get(obj, key)\<close>: a key with a dot is always walked segment by segment
  (\<open>_getPath\<close>), any other key is read directly (\<open>_getProp\<close>).
\<close>

fun getPath :: "val \<Rightarrow> string list \<Rightarrow> val" where
  "getPath v [] = v"
| "getPath v (k # ks) = (if isNil v then VUndefined else getPath (getProp v k) ks)"

definition ember_get :: "bag \<Rightarrow> string \<Rightarrow> val" where
  "ember_get es k = (if has_dot k then getPath (VObj es) (split_dots k) else lookup es k)"

subsection \<open>lodash \<open>isEmpty\<close>, \<open>isEqual\<close>, \<open>cloneDeep\<close>\<close>

text \<open>
  \<open>isEmpty\<close>: \<open>null\<close> and \<open>undefined\<close> are empty, a string or an array is empty when its
  length is 0, an object when it has no own property; numbers, booleans and dates have
  no own enumerable property and are empty.
\<close>

fun isEmpty :: "val \<Rightarrow> bool" where
  "isEmpty (VStr s) = (s = [])"
| "isEmpty (VObj es) = (es = [])"
| "isEmpty (VArr n es) = (n = 0)"
| "isEmpty _ = True"

text \<open>
  \<open>isEqual\<close>: deep equality. Primitives and dates are compared by value (\<open>NaN\<close> equals
  itself); objects have the same number of properties, and every property of the first is
  a property of the second with a deeply equal value; arrays have the same length and
  deeply equal elements, a hole reading as \<open>undefined\<close>.
\<close>

fun isEqual :: "val \<Rightarrow> val \<Rightarrow> bool" where
  "isEqual (VObj es) w =
     (case w of
        VObj fs \<Rightarrow> length es = length fs \<and>
          (\<forall>e \<in> set es. fst e \<in> set (keys fs) \<and> isEqual (snd e) (lookup fs (fst e)))
      | _ \<Rightarrow> False)"
| "isEqual (VArr n es) w =
     (case w of
        VArr m fs \<Rightarrow> n = m \<and>
          (\<forall>e \<in> set es. isIndex (fst e) \<longrightarrow> isEqual (snd e) (lookup fs (fst e))) \<and>
          (\<forall>f \<in> set fs. isIndex (fst f) \<and> fst f \<notin> set (keys es) \<longrightarrow> snd f = VUndefined)
      | _ \<Rightarrow> False)"
| "isEqual v w = (v = w)"

text \<open>
  \<open>cloneDeep\<close>: a structural copy. Of an array only the elements are copied, not its
  other properties.
\<close>

fun cloneDeep :: "val \<Rightarrow> val" where
  "cloneDeep (VObj es) = VObj (map (\<lambda>e. (fst e, cloneDeep (snd e))) es)"
| "cloneDeep (VArr n es) =
     VArr n (map (\<lambda>e. (fst e, cloneDeep (snd e))) (filter (\<lambda>e. isIndex (fst e)) es))"
| "cloneDeep v = v"

definition cloneDeep_bag :: "bag \<Rightarrow> bag" where
  "cloneDeep_bag es = map (\<lambda>e. (fst e, cloneDeep (snd e))) es"

section \<open>The form state store\<close>

text \<open>
  The sources hold two revisions of the component. The earlier one is
  \<open>ember-formidable/src/components/formidable/index.ts\<close>, called \<open>index.ts\<close> below: its
  \<open>validate\<close> and \<open>submit\<close> are restartable tasks of ember-concurrency and it accepts an
  Ember Data record as values. The later one is the Glimmer component that follows the
  rollback tests in \<open>test-app/tests/integration/components/formidable-rollback-test.gts\<close>,
  called \<open>formidable.gts\<close> below: its \<open>validate\<close> and \<open>submit\<close> are \<open>async\<close> methods, and it
  has \<open>dirtyField\<close> and \<open>getDefaultValue\<close>. A definition without suffix embeds
  \<open>formidable.gts\<close>, or what the two revisions share; a definition with the suffix
  \<open>_ts\<close> embeds \<open>index.ts\<close> where it differs.

  The component keeps the live values, the rollback snapshot, the error map and the
  dirty set as objects keyed by field path, the parse directives recorded by
  \<open>register\<close>, and the submission flags. \<open>isModel\<close> is the getter of \<open>index.ts\<close> that tells
  whether \<open>args.values\<close> is an Ember Data record; \<open>isSubmitting\<close> and \<open>isValidating\<close> are
  tracked fields of \<open>formidable.gts\<close>.
\<close>

record parser =
  valueAsNumber :: bool
  valueAsDate :: bool
  valueAsBoolean :: bool
  valueFormat :: "(val \<Rightarrow> val) option"

record store =
  values_bag :: bag
  rollbackValues :: bag
  errors :: bag
  dirtyFields :: bag
  parsers :: "(string \<times> parser) list"
  isModel :: bool
  isSubmitted :: bool
  isSubmitting :: bool
  isValidating :: bool
  isSubmitSuccessful :: "bool option"
  submitCount :: nat

text \<open>
  The coercions of JavaScript that the component applies, \<open>+value\<close>,
  \<open>new Date(value)\<close> and the template string of a value, are parameters of the model.
\<close>

record coercions =
  toNumber :: "val \<Rightarrow> val"
  toDate :: "val \<Rightarrow> val"
  toStr :: "val \<Rightarrow> val"

text \<open>
  The arguments of the component. The validator receives the parsed values and returns
  an error map or throws (\<open>Inl\<close>); its options argument is part of the function. A
  callback receives the API of the component, so it is any function on the store, and may
  throw after it (the thrown value, if any, is the second component).
  \<open>updateEvents\<close> and \<open>onValuesChanged\<close> are arguments of \<open>index.ts\<close>;
  \<open>validateOn\<close>, \<open>revalidateOn\<close>, \<open>handleOn\<close> and \<open>handler\<close> are those of
  \<open>formidable.gts\<close>.
\<close>

record args =
  validator :: "(bag \<Rightarrow> val + bag) option"
  onSubmit :: "(store \<Rightarrow> store \<times> val option) option"
  onValuesChanged :: "(store \<Rightarrow> store \<times> val option) option"
  handler :: "(store \<Rightarrow> store \<times> val option) option"
  updateEvents_arg :: "string list option"
  validateOn_arg :: "string list option"
  revalidateOn_arg :: "string list option"
  handleOn_arg :: "string list option"
  js :: coercions

subsection \<open>Derived state\<close>

definition isValid :: "store \<Rightarrow> bool" where
  "isValid s = isEmpty (VObj (errors s))"

definition isInvalid :: "store \<Rightarrow> bool" where
  "isInvalid s = (\<not> isValid s)"


definition isPristine :: "store \<Rightarrow> bool" where
  "isPristine s = isEmpty (VObj (dirtyFields s))"

definition isDirty :: "store \<Rightarrow> bool" where
  "isDirty s = (\<not> isPristine s)"

definition updateEvents :: "args \<Rightarrow> string list" where
  "updateEvents a = (case updateEvents_arg a of None \<Rightarrow> [''onSubmit''] | Some es \<Rightarrow> es)"




text \<open>
  Modelled from the spec: \<open>formatValue\<close> of \<open>-private/utils\<close>, which \<open>parsedValues\<close> of
  \<open>formidable.gts\<close> calls, is not among the sources. Section 4.2 of the specification
  gives the directives this precedence: custom formatter, numeric coercion, date
  coercion, boolean coercion, identity. It is the precedence that \<open>parsedValues\<close> of
  \<open>index.ts\<close> writes out (\<open>parsedValues_ts\<close> below).
\<close>

definition formatValue :: "coercions \<Rightarrow> val \<Rightarrow> parser option \<Rightarrow> val" where
  "formatValue c v po =
     (case po of
        None \<Rightarrow> v
      | Some p \<Rightarrow>
          (case valueFormat p of
             Some g \<Rightarrow> g v
           | None \<Rightarrow>
               if valueAsNumber p then toNumber c v
               else if valueAsDate p then toDate c v
               else if valueAsBoolean p then VBool (truthy v)
               else v))"

text \<open>\<open>get parsedValues\<close> of \<open>formidable.gts\<close>.\<close>

definition parsedValues :: "args \<Rightarrow> store \<Rightarrow> bag" where
  "parsedValues a s =
     foldl (\<lambda>obj e. lodash_set obj (fst e) (formatValue (js a) (snd e) (map_of (parsers s) (fst e))))
       [] (values_bag s)"

text \<open>
  \<open>get parsedValues\<close> of \<open>index.ts\<close>: a record is returned as it is; for a plain
  object the directive of each key is applied by a chain of tests, each of which
  returns.
\<close>

definition parsedValues_ts :: "args \<Rightarrow> store \<Rightarrow> bag" where
  "parsedValues_ts a s =
     (if isModel s then values_bag s
      else foldl (\<lambda>obj e.
             let key = fst e; value = snd e
             in case map_of (parsers s) key of
                  None \<Rightarrow> lodash_set obj key value
                | Some p \<Rightarrow>
                    (case valueFormat p of
                       Some g \<Rightarrow> lodash_set obj key (g value)
                     | None \<Rightarrow>
                         if valueAsNumber p then lodash_set obj key (toNumber (js a) value)
                         else if valueAsDate p then lodash_set obj key (toDate (js a) value)
                         else if valueAsBoolean p then lodash_set obj key (VBool (truthy value))
                         else lodash_set obj key value))
             [] (values_bag s))"

record FieldState =
  fs_isDirty :: val
  fs_isPristine :: bool
  fs_isInvalid :: bool
  fs_error :: val

definition getFieldState :: "store \<Rightarrow> string \<Rightarrow> FieldState" where
  "getFieldState s name =
     (let isDirty = nullish_or (lookup (dirtyFields s) name) (VBool False);
          isPristine = (\<not> truthy isDirty);
          error = lookup (errors s) name;
          isInvalid = (\<not> isEmpty error)
      in \<lparr>fs_isDirty = isDirty, fs_isPristine = isPristine, fs_isInvalid = isInvalid,
          fs_error = error\<rparr>)"

definition getValue :: "args \<Rightarrow> store \<Rightarrow> string \<Rightarrow> val" where
  "getValue a s field = ember_get (parsedValues a s) field"

text \<open>
  \<open>getValue\<close> of \<open>index.ts\<close>, for a key that is not a \<open>belongsTo\<close> relationship of a
  record (relationships of records are outside the model).
\<close>

definition getValue_ts :: "args \<Rightarrow> store \<Rightarrow> string \<Rightarrow> val" where
  "getValue_ts a s key = ember_get (parsedValues_ts a s) key"

definition getValues :: "args \<Rightarrow> store \<Rightarrow> bag" where
  "getValues a s = parsedValues a s"

definition getDefaultValue :: "store \<Rightarrow> string \<Rightarrow> val" where
  "getDefaultValue s field = ember_get (rollbackValues s) field"

subsection \<open>Errors\<close>

text \<open>The decimal name of an array index.\<close>

fun index_str :: "nat \<Rightarrow> string" where
  "index_str n =
     (if n < 10 then [char_of (of_char (CHR ''0'') + n)]
      else index_str (n div 10) @ [char_of (of_char (CHR ''0'') + n mod 10)])"

text \<open>An array literal \<open>[x0, x1, ...]\<close>.\<close>

definition mk_array :: "val list \<Rightarrow> val" where
  "mk_array xs = VArr (length xs) (map (\<lambda>i. (index_str i, xs ! i)) [0..<length xs])"

text \<open>
  The spread \<open>...v\<close> inside an array literal: the elements of an array (a hole reads
  \<open>undefined\<close>), the characters of a string; any other value is not iterable
  (\<open>None\<close>, a \<open>TypeError\<close> in JavaScript).
\<close>

fun spread :: "val \<Rightarrow> val list option" where
  "spread (VArr n es) = Some (map (\<lambda>i. lookup es (index_str i)) [0..<n])"
| "spread (VStr cs) = Some (map (\<lambda>c. VStr [c]) cs)"
| "spread _ = None"

definition TypeError :: val where
  "TypeError = VStr ''TypeError''"

text \<open>
  \<open>setError(field, error)\<close> of \<open>formidable.gts\<close>: append one record to the sequence of
  the field. \<open>error\<close> is a message string or a record \<open>{type, message, value}\<close>.
\<close>

definition error_record :: "val \<Rightarrow> val \<Rightarrow> val" where
  "error_record error dflt =
     (case error of
        VStr msg \<Rightarrow> VObj [(''message'', VStr msg), (''type'', VStr ''custom''), (''value'', dflt)]
      | _ \<Rightarrow> VObj [(''message'', getProp error ''message''),
                  (''type'', nullish_or (getProp error ''type'') (VStr ''custom'')),
                  (''value'', nullish_or (getProp error ''value'') dflt)])"

definition append_error :: "store \<Rightarrow> string \<Rightarrow> val \<Rightarrow> store \<times> val option" where
  "append_error s field r =
     (case spread (nullish_or (lookup (errors s) field) (mk_array [])) of
        None \<Rightarrow> (s, Some TypeError)
      | Some xs \<Rightarrow> (s\<lparr>errors := assign (errors s) field (mk_array (xs @ [r]))\<rparr>, None))"

definition setError :: "args \<Rightarrow> store \<Rightarrow> string \<Rightarrow> val \<Rightarrow> store \<times> val option" where
  "setError a s field error =
     (if isNil error then (s, Some TypeError)
      else append_error s field (error_record error (getValue a s field)))"

text \<open>\<open>setError\<close> of \<open>index.ts\<close>: the \<open>value\<close> of the record defaults to \<open>undefined\<close>.\<close>

definition setError_ts :: "store \<Rightarrow> string \<Rightarrow> val \<Rightarrow> store \<times> val option" where
  "setError_ts s key error =
     (if isNil error then (s, Some TypeError)
      else append_error s key (error_record error VUndefined))"

text \<open>\<open>clearError\<close> of \<open>formidable.gts\<close> and of \<open>index.ts\<close>, and \<open>clearErrors\<close>.\<close>

definition clearError :: "store \<Rightarrow> string \<Rightarrow> store" where
  "clearError s field =
     (if truthy (lookup (errors s) field) then s\<lparr>errors := lodash_unset (errors s) field\<rparr> else s)"

definition clearError_ts :: "store \<Rightarrow> string \<Rightarrow> store" where
  "clearError_ts s key = s\<lparr>errors := lodash_set (errors s) key VUndefined\<rparr>"

definition clearErrors :: "store \<Rightarrow> store" where
  "clearErrors s = s\<lparr>errors := []\<rparr>"

subsection \<open>Rollback\<close>

record RollbackContext =
  keepError :: bool
  keepDirty :: bool
  defaultValue :: val

text \<open>
  An argument that a call leaves out is \<open>undefined\<close>, and \<open>if (field)\<close> tests the
  truthiness of the name: the empty name counts as no name.
\<close>

definition given :: "string option \<Rightarrow> bool" where
  "given field = (case field of None \<Rightarrow> False | Some f \<Rightarrow> f \<noteq> [])"

text \<open>
  \<open>rollback(field, context)\<close> of \<open>formidable.gts\<close>: the branch for one field, the
  branch for the whole form, and the test that chooses between them.
\<close>

definition rollback_field :: "store \<Rightarrow> string \<Rightarrow> RollbackContext \<Rightarrow> store" where
  "rollback_field s field ctx =
     (let s1 = s\<lparr>values_bag := assign (values_bag s) field
                     (nullish_or (defaultValue ctx)
                        (nullish_or (lookup (rollbackValues s) field) VUndefined))\<rparr>;
          s2 = (if truthy (defaultValue ctx)
                then s1\<lparr>rollbackValues := assign (rollbackValues s1) field (defaultValue ctx)\<rparr>
                else s1);
          s3 = (if \<not> keepError ctx then s2\<lparr>errors := lodash_unset (errors s2) field\<rparr> else s2)
      in if \<not> keepDirty ctx then s3\<lparr>dirtyFields := lodash_unset (dirtyFields s3) field\<rparr>
         else s3)"

definition rollback_all :: "store \<Rightarrow> RollbackContext \<Rightarrow> store" where
  "rollback_all s ctx =
     (let s1 = s\<lparr>values_bag := cloneDeep_bag (rollbackValues s)\<rparr>;
          s2 = (if \<not> keepError ctx then s1\<lparr>errors := []\<rparr> else s1);
          s3 = (if \<not> keepDirty ctx then s2\<lparr>dirtyFields := []\<rparr> else s2)
      in s3\<lparr>isSubmitted := False\<rparr>)"

definition rollback :: "store \<Rightarrow> string option \<Rightarrow> RollbackContext \<Rightarrow> store" where
  "rollback s field ctx =
     (case field of
        None \<Rightarrow> rollback_all s ctx
      | Some f \<Rightarrow> if f \<noteq> [] then rollback_field s f ctx else rollback_all s ctx)"

text \<open>
  \<open>rollback(name, context)\<close> of \<open>index.ts\<close>. The snapshot is never written. For a record
  the whole-form rollback writes every snapshot entry back with the record's \<open>set\<close>. The
  keys of the snapshot of a record are its attribute names (see the constructor), and
  \<open>set\<close> of an attribute is the assignment of the property.
\<close>

definition rollback_field_ts :: "store \<Rightarrow> string \<Rightarrow> RollbackContext \<Rightarrow> store" where
  "rollback_field_ts s name ctx =
     (let s1 = s\<lparr>values_bag := assign (values_bag s) name
                     (nullish_or (defaultValue ctx)
                        (nullish_or (lookup (rollbackValues s) name) VUndefined))\<rparr>;
          s2 = (if \<not> keepError ctx then s1\<lparr>errors := delete (errors s1) name\<rparr> else s1)
      in if \<not> keepDirty ctx then s2\<lparr>dirtyFields := delete (dirtyFields s2) name\<rparr> else s2)"

definition rollback_all_ts :: "store \<Rightarrow> RollbackContext \<Rightarrow> store" where
  "rollback_all_ts s ctx =
     (let s1 = (if isModel s
                then s\<lparr>values_bag :=
                       foldl (\<lambda>vs e. assign vs (fst e) (snd e)) (values_bag s) (rollbackValues s)\<rparr>
                else s\<lparr>values_bag := cloneDeep_bag (rollbackValues s)\<rparr>);
          s2 = (if \<not> keepError ctx then s1\<lparr>errors := []\<rparr> else s1);
          s3 = (if \<not> keepDirty ctx then s2\<lparr>dirtyFields := []\<rparr> else s2)
      in s3\<lparr>isSubmitted := False\<rparr>)"

definition rollback_ts :: "store \<Rightarrow> string option \<Rightarrow> RollbackContext \<Rightarrow> store" where
  "rollback_ts s name ctx =
     (case name of
        None \<Rightarrow> rollback_all_ts s ctx
      | Some n \<Rightarrow> if n \<noteq> [] then rollback_field_ts s n ctx else rollback_all_ts s ctx)"

subsection \<open>Validation\<close>

text \<open>
  \<open>validate(field)\<close> of \<open>formidable.gts\<close> runs in three steps around the one \<open>await\<close>:
  it raises the in-flight flag and calls the validator on the parsed values of that
  moment; when the promise settles, the result is written (\<open>apply_validation\<close>) or the
  exception propagates; the \<open>finally\<close> block lowers the flag.
\<close>

definition apply_validation :: "store \<Rightarrow> string option \<Rightarrow> bag \<Rightarrow> store" where
  "apply_validation s field validation =
     (case field of
        None \<Rightarrow> s\<lparr>errors := validation\<rparr>
      | Some f \<Rightarrow>
          if f \<noteq> [] then s\<lparr>errors := lodash_set (errors s) f (ember_get validation f)\<rparr>
          else s\<lparr>errors := validation\<rparr>)"

definition settle_validation :: "store \<Rightarrow> string option \<Rightarrow> val + bag \<Rightarrow> store \<times> val option" where
  "settle_validation s field result =
     (case result of
        Inl e \<Rightarrow> (s\<lparr>isValidating := False\<rparr>, Some e)
      | Inr validation \<Rightarrow> ((apply_validation s field validation)\<lparr>isValidating := False\<rparr>, None))"

text \<open>The call run to completion with nothing else in between.\<close>

definition validate :: "args \<Rightarrow> store \<Rightarrow> string option \<Rightarrow> store \<times> val option" where
  "validate a s field =
     (let s1 = s\<lparr>isValidating := True\<rparr>
      in case validator a of
           None \<Rightarrow> (s1\<lparr>isValidating := False\<rparr>, None)
         | Some v \<Rightarrow> settle_validation s1 field (v (parsedValues a s1)))"

text \<open>
  The task \<open>validate\<close> of \<open>index.ts\<close>, run to completion; \<open>isValidating\<close> is there the
  running state of the task, not a field.
\<close>

definition validate_ts :: "args \<Rightarrow> store \<Rightarrow> string option \<Rightarrow> store \<times> val option" where
  "validate_ts a s field =
     (case validator a of
        None \<Rightarrow> (s, None)
      | Some v \<Rightarrow>
          (case v (parsedValues_ts a s) of
             Inl e \<Rightarrow> (s, Some e)
           | Inr validation \<Rightarrow> (apply_validation s field validation, None)))"

subsection \<open>Writing a value\<close>

record SetContext =
  shouldValidate :: bool
  shouldDirty :: bool

definition dirtyField :: "args \<Rightarrow> store \<Rightarrow> string \<Rightarrow> store" where
  "dirtyField a s field =
     s\<lparr>dirtyFields := assign (dirtyFields s) field
          (VBool (\<not> isEqual (ember_get (rollbackValues s) field)
                            (ember_get (parsedValues a s) field)))\<rparr>"

text \<open>\<open>setValue(field, value, context)\<close> of \<open>formidable.gts\<close>.\<close>

definition setValue :: "args \<Rightarrow> store \<Rightarrow> string \<Rightarrow> val \<Rightarrow> SetContext \<Rightarrow> store \<times> val option" where
  "setValue a s field v ctx =
     (let s1 = s\<lparr>values_bag := assign (values_bag s) field v\<rparr>;
          s2 = (if shouldDirty ctx then dirtyField a s1 field else s1)
      in if shouldValidate ctx then validate a s2 (Some field) else (s2, None))"

text \<open>
  Ember \<open>set(obj, key, value)\<close>, which \<open>index.ts\<close> calls on a record: the parent of the
  last segment must exist, else the call throws (\<open>None\<close>).
\<close>

fun setPath :: "val \<Rightarrow> string list \<Rightarrow> val \<Rightarrow> val option" where
  "setPath root [] v = None"
| "setPath root [k] v = (if isObject root then Some (assignKey root k v) else None)"
| "setPath root (k # k' # ks) v =
     (case setPath (getProp root k) (k' # ks) v of
        None \<Rightarrow> None
      | Some sub \<Rightarrow> Some (assignKey root k sub))"

definition ember_set :: "bag \<Rightarrow> string \<Rightarrow> val \<Rightarrow> bag option" where
  "ember_set es k v = map_option entries (setPath (VObj es) (split_dots k) v)"

text \<open>
  \<open>setValue(key, value, context)\<close> of \<open>index.ts\<close>. For a record the directive of the
  field is applied at the write, in the order of the \<open>else if\<close> chain. The validation
  task is started and not awaited: an exception of the validator does not reach the caller.
\<close>

definition model_value :: "coercions \<Rightarrow> val \<Rightarrow> parser option \<Rightarrow> val" where
  "model_value c v po =
     (case po of
        None \<Rightarrow> v
      | Some p \<Rightarrow>
          if valueAsNumber p then toNumber c (nullish_or v (VStr []))
          else if valueAsDate p then toDate c (toStr c v)
          else if valueAsBoolean p then VBool (truthy v)
          else (case valueFormat p of Some g \<Rightarrow> g v | None \<Rightarrow> v))"

definition Error :: val where
  "Error = VStr ''Error''"

definition setValue_ts :: "args \<Rightarrow> store \<Rightarrow> string \<Rightarrow> val \<Rightarrow> SetContext \<Rightarrow> store \<times> val option" where
  "setValue_ts a s key v ctx =
     (case (if isModel s
            then ember_set (values_bag s) key (model_value (js a) v (map_of (parsers s) key))
            else Some (assign (values_bag s) key v)) of
        None \<Rightarrow> (s, Some Error)
      | Some vs \<Rightarrow>
          (let s1 = s\<lparr>values_bag := vs\<rparr>;
               s2 = (if shouldDirty ctx
                     then s1\<lparr>dirtyFields := assign (dirtyFields s1) key (VBool True)\<rparr> else s1)
           in if shouldValidate ctx then (fst (validate_ts a s2 (Some key)), None)
              else (s2, None)))"

subsection \<open>Submit\<close>

datatype callback = OnSubmit | Handler | OnValuesChanged

text \<open>
  The outcome of a call: the store it leaves, the callbacks it invoked, and the
  exception it throws, if any.
\<close>

type_synonym outcome = "store \<times> callback list \<times> val option"





text \<open>The task \<open>submit\<close> of \<open>index.ts\<close>, run to completion.\<close>

definition submit_ts :: "args \<Rightarrow> store \<Rightarrow> outcome" where
  "submit_ts a s =
     (let s1 = s\<lparr>isSubmitted := True, submitCount := submitCount s + 1\<rparr>;
          r = (if ''onSubmit'' \<in> set (updateEvents a)
               then validate_ts a s1 None else (s1, None));
          s2 = fst r
      in case snd r of
           Some e \<Rightarrow> (s2, [], Some e)
         | None \<Rightarrow>
             (let s3 = s2\<lparr>isSubmitSuccessful := Some (isValid s2)\<rparr>
              in if \<not> isValid s2 then (s3, [], None)
                 else (case onSubmit a of
                         Some h \<Rightarrow> (fst (h s3), [OnSubmit], snd (h s3))
                       | None \<Rightarrow>
                           (case onValuesChanged a of
                              Some h \<Rightarrow>
                                if ''onSubmit'' \<in> set (updateEvents a)
                                then (fst (h s3), [OnValuesChanged], snd (h s3))
                                else (s3, [], None)
                            | None \<Rightarrow> (s3, [], None)))))"

subsection \<open>Construction and registration\<close>

text \<open>
  The constructor of \<open>formidable.gts\<close>, and that of \<open>index.ts\<close>, where the snapshot of a
  record is taken attribute by attribute (\<open>eachAttribute\<close>). \<open>register\<close> records the parse
  directive of the field; its work on the DOM element is not part of the store.
\<close>

definition new_store :: "bag \<Rightarrow> store" where
  "new_store vs =
     \<lparr>values_bag = cloneDeep_bag vs, rollbackValues = cloneDeep_bag vs, errors = [],
      dirtyFields = [], parsers = [], isModel = False, isSubmitted = False,
      isSubmitting = False, isValidating = False, isSubmitSuccessful = None, submitCount = 0\<rparr>"

definition new_store_ts :: "bool \<Rightarrow> string list \<Rightarrow> bag \<Rightarrow> store" where
  "new_store_ts model attributes vs =
     \<lparr>values_bag = vs,
      rollbackValues =
        (if model then map (\<lambda>key. (key, cloneDeep (ember_get vs key))) attributes
         else cloneDeep_bag vs),
      errors = [], dirtyFields = [], parsers = [], isModel = model, isSubmitted = False,
      isSubmitting = False, isValidating = False, isSubmitSuccessful = None, submitCount = 0\<rparr>"

definition register :: "store \<Rightarrow> string \<Rightarrow> parser \<Rightarrow> store" where
  "register s name p = s\<lparr>parsers := assign (parsers s) name p\<rparr>"

section \<open>Auxiliary notions and example forms\<close>

text \<open>An object none of whose own property names contains a dot.\<close>

definition plain_keys :: "bag \<Rightarrow> bool" where
  "plain_keys es = (\<forall>k \<in> set (keys es). \<not> has_dot k)"

text \<open>
  Closed instances for the examples: arguments without validator and callbacks, and
  coercions for them. The examples apply the numeric coercion only, to numbers and
  digit strings, where it is what \<open>+value\<close> gives.
\<close>

definition digit_coercions :: coercions where
  "digit_coercions =
     \<lparr>toNumber = (\<lambda>v. case v of
                     VNum n \<Rightarrow> VNum n
                   | VStr s \<Rightarrow> if s \<noteq> [] \<and> list_all is_digit s then VNum (int (index_of s)) else VNaN
                   | _ \<Rightarrow> VNaN),
      toDate = (\<lambda>v. VInvalidDate),
      toStr = (\<lambda>v. case v of VStr s \<Rightarrow> VStr s | _ \<Rightarrow> VStr ''undefined'')\<rparr>"

definition plain_args :: args where
  "plain_args =
     \<lparr>validator = None, onSubmit = None, onValuesChanged = None, handler = None,
      updateEvents_arg = None, validateOn_arg = None, revalidateOn_arg = None,
      handleOn_arg = None, js = digit_coercions\<rparr>"

text \<open>One error record, as \<open>setError\<close> builds it.\<close>

definition required_error :: val where
  "required_error =
     mk_array [VObj [(''message'', VStr ''required''), (''type'', VStr ''custom''),
                     (''value'', VUndefined)]]"

text \<open>
  Two paths overlap when one is a prefix of the other; two field names overlap when their
  paths do. \<open>later_keys es f\<close> are the property names that follow \<open>f\<close> in the
  enumeration order of the object.
\<close>

fun comparable :: "string list \<Rightarrow> string list \<Rightarrow> bool" where
  "comparable [] q = True"
| "comparable p [] = True"
| "comparable (x # p) (y # q) = (x = y \<and> comparable p q)"

definition overlaps :: "string \<Rightarrow> string \<Rightarrow> bool" where
  "overlaps k f = comparable (split_dots k) (split_dots f)"

definition later_keys :: "bag \<Rightarrow> string \<Rightarrow> string list" where
  "later_keys es f = keys (tl (dropWhile (\<lambda>e. fst e \<noteq> f) es))"

text \<open>
  The stores that the operations of \<open>index.ts\<close> reach from a newly constructed component.
\<close>

inductive reachable_ts :: "args \<Rightarrow> store \<Rightarrow> bool" for a :: args where
  r_new: "reachable_ts a (new_store_ts model attributes vs)"
| r_register: "reachable_ts a s \<Longrightarrow> reachable_ts a (register s name p)"
| r_setValue: "reachable_ts a s \<Longrightarrow> reachable_ts a (fst (setValue_ts a s key v ctx))"
| r_setError: "reachable_ts a s \<Longrightarrow> reachable_ts a (fst (setError_ts s key error))"
| r_clearError: "reachable_ts a s \<Longrightarrow> reachable_ts a (clearError_ts s key)"
| r_clearErrors: "reachable_ts a s \<Longrightarrow> reachable_ts a (clearErrors s)"
| r_rollback: "reachable_ts a s \<Longrightarrow> reachable_ts a (rollback_ts s name rctx)"
| r_validate: "reachable_ts a s \<Longrightarrow> reachable_ts a (fst (validate_ts a s field))"
| r_submit: "reachable_ts a s \<Longrightarrow> reachable_ts a (fst (submit_ts a s))"


subsection \<open>Validation requests that overlap\<close>

text \<open>
  The validator is asynchronous: between the call of the validator and the moment its
  promise settles, other requests and other operations of the store may run. A run of the
  component is a sequence of events: a validation request (the validator is called on the
  parsed values of that moment, and its result is kept until it settles), the settling of
  a request, and any synchronous operation of the store in between.
\<close>

datatype event = Request "string option" | Settle nat | Act "store \<Rightarrow> store"

record run =
  st :: store
  pending :: "(nat \<times> string option \<times> (val + bag)) list"
  next_id :: nat

definition start :: "store \<Rightarrow> run" where
  "start s = \<lparr>st = s, pending = [], next_id = 0\<rparr>"

text \<open>
  \<open>formidable.gts\<close>: \<open>validate\<close> is an \<open>async\<close> method. Every call runs to its end; a call
  that is waiting stays pending whatever is requested after it.
\<close>

fun step :: "args \<Rightarrow> run \<Rightarrow> event \<Rightarrow> run" where
  "step a r (Request field) =
     (case validator a of
        None \<Rightarrow> r\<lparr>st := (st r)\<lparr>isValidating := False\<rparr>\<rparr>
      | Some v \<Rightarrow>
          r\<lparr>st := (st r)\<lparr>isValidating := True\<rparr>,
            pending := pending r @
              [(next_id r, field, v (parsedValues a ((st r)\<lparr>isValidating := True\<rparr>)))],
            next_id := Suc (next_id r)\<rparr>)"
| "step a r (Settle i) =
     (case find (\<lambda>p. fst p = i) (pending r) of
        None \<Rightarrow> r
      | Some p \<Rightarrow>
          r\<lparr>st := fst (settle_validation (st r) (fst (snd p)) (snd (snd p))),
            pending := filter (\<lambda>p. fst p \<noteq> i) (pending r)\<rparr>)"
| "step a r (Act f) = r\<lparr>st := f (st r)\<rparr>"

definition run_events :: "args \<Rightarrow> run \<Rightarrow> event list \<Rightarrow> run" where
  "run_events a r evs = foldl (step a) r evs"

text \<open>
  \<open>index.ts\<close>: \<open>validate\<close> is a restartable task of ember-concurrency. Performing it
  cancels the instance that is running, if any, at its \<open>yield\<close>; a cancelled instance is
  never resumed, so the settling of its promise does nothing.
\<close>

fun step_ts :: "args \<Rightarrow> run \<Rightarrow> event \<Rightarrow> run" where
  "step_ts a r (Request field) =
     (case validator a of
        None \<Rightarrow> r\<lparr>pending := []\<rparr>
      | Some v \<Rightarrow>
          r\<lparr>pending := [(next_id r, field, v (parsedValues_ts a (st r)))],
            next_id := Suc (next_id r)\<rparr>)"
| "step_ts a r (Settle i) =
     (case find (\<lambda>p. fst p = i) (pending r) of
        None \<Rightarrow> r
      | Some p \<Rightarrow>
          (case snd (snd p) of
             Inl e \<Rightarrow> r\<lparr>pending := []\<rparr>
           | Inr validation \<Rightarrow>
               r\<lparr>st := apply_validation (st r) (fst (snd p)) validation, pending := []\<rparr>))"
| "step_ts a r (Act f) = r\<lparr>st := f (st r)\<rparr>"

definition run_events_ts :: "args \<Rightarrow> run \<Rightarrow> event list \<Rightarrow> run" where
  "run_events_ts a r evs = foldl (step_ts a) r evs"

text \<open>Closed forms and calls for the examples.\<close>

definition boolean_parser :: parser where
  "boolean_parser =
     \<lparr>valueAsNumber = False, valueAsDate = False, valueAsBoolean = True, valueFormat = None\<rparr>"

definition agree_form :: store where
  "agree_form = register (new_store [(''agree'', VStr ''yes'')]) ''agree'' boolean_parser"

definition dirty_only :: SetContext where
  "dirty_only = \<lparr>shouldValidate = False, shouldDirty = True\<rparr>"

definition no_context :: RollbackContext where
  "no_context = \<lparr>keepError = False, keepDirty = False, defaultValue = VUndefined\<rparr>"

text \<open>A validator that requires \<open>foo\<close>, and a submit handler that rolls the form back.\<close>

definition require_foo :: "bag \<Rightarrow> val + bag" where
  "require_foo vs = Inr (if truthy (lookup vs ''foo'') then [] else [(''foo'', required_error)])"

definition validating_args :: args where
  "validating_args =
     plain_args\<lparr>validator := Some require_foo,
                onSubmit := Some (\<lambda>s. (rollback s None no_context, None))\<rparr>"

definition foo_form :: store where
  "foo_form = new_store [(''foo'', VStr [])]"

definition no_flags :: SetContext where
  "no_flags = \<lparr>shouldValidate = False, shouldDirty = False\<rparr>"

definition number_parser :: parser where
  "number_parser =
     \<lparr>valueAsNumber = True, valueAsDate = False, valueAsBoolean = False, valueFormat = None\<rparr>"

text \<open>The forms of the rollback tests: a number field beside a text field, a text
  field with a default, and a nested object.\<close>

definition number_form :: store where
  "number_form = register (new_store [(''foo'', VNum 404), (''bar'', VStr ''x'')]) ''foo'' number_parser"

definition default_form :: store where
  "default_form = new_store [(''foo'', VStr ''DEFAULT'')]"

definition nested_form :: store where
  "nested_form = new_store [(''foo'', VObj [(''bar'', VStr ''DEFAULT'')])]"

definition nested_form_ts :: store where
  "nested_form_ts = new_store_ts False [] [(''foo'', VObj [(''bar'', VStr ''DEFAULT'')])]"

definition with_default :: "val \<Rightarrow> RollbackContext" where
  "with_default d = \<lparr>keepError = False, keepDirty = False, defaultValue = d\<rparr>"

text \<open>A validator whose result has an error for the nested field \<open>a.b\<close>.\<close>

definition nested_errors :: "bag \<Rightarrow> val + bag" where
  "nested_errors vs = Inr [(''a'', VObj [(''b'', required_error)])]"

definition nested_args :: args where
  "nested_args = plain_args\<lparr>validator := Some nested_errors\<rparr>"

text \<open>
  A run in which every pending request, and every request still to come, has an
  identifier of at least \<open>n\<close>.
\<close>

definition fresh_from :: "nat \<Rightarrow> run \<Rightarrow> bool" where
  "fresh_from n r = (n \<le> next_id r \<and> (\<forall>p \<in> set (pending r). n \<le> fst p))"

text \<open>The user types \<open>ok\<close> into the field \<open>foo\<close>.\<close>

definition write_ok :: "store \<Rightarrow> store" where
  "write_ok s = fst (setValue validating_args s ''foo'' (VStr ''ok'') no_flags)"

definition write_ok_ts :: "store \<Rightarrow> store" where
  "write_ok_ts s = fst (setValue_ts validating_args s ''foo'' (VStr ''ok'') no_flags)"

text \<open>A validator whose result has the error of \<open>a.b\<close> under the flat key.\<close>

definition flat_errors :: "bag \<Rightarrow> val + bag" where
  "flat_errors vs = Inr [(''a.b'', required_error)]"

definition flat_args :: args where
  "flat_args = plain_args\<lparr>validator := Some flat_errors\<rparr>"

text \<open>A record with one attribute, whose field has a formatter beside \<open>valueAsBoolean\<close>.\<close>

definition shout_parser :: parser where
  "shout_parser =
     \<lparr>valueAsNumber = False, valueAsDate = False, valueAsBoolean = True,
      valueFormat = Some (\<lambda>v. VStr ''FORMATTED'')\<rparr>"

definition record_form :: store where
  "record_form = register (new_store_ts True [''str''] [(''str'', VStr ''Child'')]) ''str'' shout_parser"

text \<open>
  A record with the attribute \<open>str\<close> and the property \<open>id\<close>, which is no attribute; the
  same record after its attribute was changed.
\<close>

definition record_with_id :: store where
  "record_with_id =
     new_store_ts True [''str''] [(''id'', VStr ''1''), (''str'', VStr ''Child'')]"

definition changed_record :: store where
  "changed_record = fst (setValue_ts plain_args record_with_id ''str'' (VStr ''Changed'') no_flags)"

text \<open>A form whose values object has a property with a dotted name.\<close>

definition dotted_form :: store where
  "dotted_form = new_store [(''foo.bar'', VStr ''old''), (''baz'', VStr ''x'')]"

section \<open>Properties\<close>

subsection \<open>The parsed values of the two revisions\<close>

text \<open>
  On a plain object the chain of \<open>index.ts\<close> computes what \<open>formatValue\<close> computes.
\<close>

lemma parsedValues_ts_eq:
  "parsedValues_ts a s = (if isModel s then values_bag s else parsedValues a s)"
proof -
  have "(\<lambda>obj e.
             let key = fst e; value = snd e
             in case map_of (parsers s) key of
                  None \<Rightarrow> lodash_set obj key value
                | Some p \<Rightarrow>
                    (case valueFormat p of
                       Some g \<Rightarrow> lodash_set obj key (g value)
                     | None \<Rightarrow>
                         if valueAsNumber p then lodash_set obj key (toNumber (js a) value)
                         else if valueAsDate p then lodash_set obj key (toDate (js a) value)
                         else if valueAsBoolean p then lodash_set obj key (VBool (truthy value))
                         else lodash_set obj key value))
      = (\<lambda>obj e. lodash_set obj (fst e)
           (formatValue (js a) (snd e) (map_of (parsers s) (fst e))))"
    by (intro ext) (simp add: formatValue_def Let_def split: option.splits)
  then show ?thesis
    by (simp add: parsedValues_ts_def parsedValues_def)
qed

subsection \<open>Property lists and paths\<close>

lemma lookup_assign: "lookup (assign es k v) k' = (if k' = k then v else lookup es k')"
  by (induction es) (auto simp: lookup_def)

lemma map_of_assign: "map_of (assign es k v) k' = (if k' = k then Some v else map_of es k')"
  by (induction es) auto

lemma keys_assign: "set (keys (assign es k v)) = insert k (set (keys es))"
  by (induction es) (force simp: keys_def)+

lemma split_dots_not_Nil: "split_dots k \<noteq> []"
  by (cases k) auto

lemma split_dots_no_dot: "\<not> has_dot k \<Longrightarrow> split_dots k = [k]"
  by (induction k) (auto simp: has_dot_def)

lemma hd_split_dots_no_dot: "\<not> has_dot (hd (split_dots k))"
  by (induction k) (auto simp: has_dot_def)

lemma keys_baseSet:
  "p \<noteq> [] \<Longrightarrow> set (keys (entries (baseSet (VObj es) p v))) = insert (hd p) (set (keys es))"
proof (cases p)
  case Nil
  assume "p \<noteq> []"
  with Nil show ?thesis by simp
next
  case (Cons k ks)
  then show ?thesis by (cases ks) (simp_all add: keys_assign Let_def)
qed

lemma castPath_not_Nil: "castPath k es \<noteq> []"
  by (simp add: castPath_def split_dots_not_Nil)

lemma keys_lodash_set:
  "set (keys (lodash_set es k v)) = insert (hd (castPath k es)) (set (keys es))"
  by (simp add: lodash_set_def keys_baseSet castPath_not_Nil)

lemma castPath_plain: "plain_keys es \<Longrightarrow> castPath k es = split_dots k"
  by (auto simp: castPath_def plain_keys_def split_dots_no_dot)

lemma plain_keys_lodash_set: "plain_keys es \<Longrightarrow> plain_keys (lodash_set es k v)"
  unfolding plain_keys_def keys_lodash_set
  by (auto simp: castPath_def hd_split_dots_no_dot)

lemma plain_keys_Nil: "plain_keys []"
  by (simp add: plain_keys_def keys_def)

subsection \<open>Invalid fields\<close>




subsection \<open>Validation\<close>

text \<open>
  C9. When no validator was supplied, \<open>validate\<close> returns without an exception and the
  error map after the call is the one before it, whatever the field argument: the task
  of \<open>index.ts\<close> leaves the whole store as it is, the method of \<open>formidable.gts\<close> only
  raises and lowers its in-flight flag.
\<close>

theorem validate_without_validator:
  "validator a = None \<Longrightarrow>
   validate_ts a s field = (s, None)
   \<and> errors (fst (validate a s field)) = errors s \<and> snd (validate a s field) = None"
  by (simp add: validate_ts_def validate_def)

theorem validate_without_validator_witness:
  "validator plain_args = None
   \<and> validate_ts plain_args ((new_store [])\<lparr>errors := [(''foo'', required_error)]\<rparr>) (Some ''foo'')
       = ((new_store [])\<lparr>errors := [(''foo'', required_error)]\<rparr>, None)
   \<and> errors (fst (validate plain_args ((new_store [])\<lparr>errors := [(''foo'', required_error)]\<rparr>) None))
       = [(''foo'', required_error)]"
proof -
  have h: "validator plain_args = None" by (simp add: plain_args_def)
  show ?thesis
    using h validate_without_validator
      [OF h, of "(new_store [])\<lparr>errors := [(''foo'', required_error)]\<rparr>"]
    by simp
qed

lemma assign_not_Nil: "assign es k v \<noteq> []"
  by (cases es) (auto split: if_splits)

lemma assign_same: "map_of w k = Some v \<Longrightarrow> assign w k v = w"
  by (induction w) (auto split: if_splits)

lemma parsedValues_cong:
  "values_bag s = values_bag t \<Longrightarrow> parsers s = parsers t \<Longrightarrow> parsedValues a s = parsedValues a t"
  by (simp add: parsedValues_def)

lemma parsedValues_ts_cong:
  "values_bag s = values_bag t \<Longrightarrow> parsers s = parsers t \<Longrightarrow> isModel s = isModel t \<Longrightarrow>
   parsedValues_ts a s = parsedValues_ts a t"
  by (simp add: parsedValues_ts_eq parsedValues_def)

lemma validate_frame [simp]:
  "dirtyFields (fst (validate a s field)) = dirtyFields s"
  "values_bag (fst (validate a s field)) = values_bag s"
  "parsers (fst (validate a s field)) = parsers s"
  "rollbackValues (fst (validate a s field)) = rollbackValues s"
  "submitCount (fst (validate a s field)) = submitCount s"
  by (simp_all add: validate_def settle_validation_def apply_validation_def Let_def
      split: option.splits sum.splits)

lemma validate_ts_frame [simp]:
  "dirtyFields (fst (validate_ts a s field)) = dirtyFields s"
  "values_bag (fst (validate_ts a s field)) = values_bag s"
  "parsers (fst (validate_ts a s field)) = parsers s"
  "rollbackValues (fst (validate_ts a s field)) = rollbackValues s"
  "isModel (fst (validate_ts a s field)) = isModel s"
  "submitCount (fst (validate_ts a s field)) = submitCount s"
  by (simp_all add: validate_ts_def apply_validation_def Let_def
      split: option.splits sum.splits)

subsection \<open>Validity\<close>

text \<open>
  What the two derived properties compute, in every store: a field is reported invalid
  exactly when the error map has an entry under its name and that entry is not empty,
  and the form is valid exactly when the error map has no entry at all.
\<close>

lemma derived_validity:
  "fs_isInvalid (getFieldState s f) =
     (case map_of (errors s) f of None \<Rightarrow> False | Some e \<Rightarrow> \<not> isEmpty e)"
  "isValid s = (errors s = [])"
  by (simp_all add: getFieldState_def isValid_def lookup_def Let_def split: option.splits)

text \<open>
  \<open>clearError\<close> of \<open>index.ts\<close> sets the entry to \<open>undefined\<close> and leaves the key in the
  error map. For every name without a dot the field is no longer invalid afterwards while
  the form is still not valid; when the error map held no other entry, no field at all
  is invalid and the form is not valid.
\<close>

lemma clearError_ts_plain:
  "\<not> has_dot key \<Longrightarrow> errors (clearError_ts s key) = assign (errors s) key VUndefined"
  by (simp add: clearError_ts_def lodash_set_def castPath_def)

lemma clearError_ts_leaves_key:
  "\<not> has_dot key \<Longrightarrow>
   \<not> fs_isInvalid (getFieldState (clearError_ts s key) key) \<and> \<not> isValid (clearError_ts s key)"
  by (simp add: clearError_ts_plain getFieldState_def lookup_assign isValid_def Let_def
      assign_not_Nil)

lemma clearError_ts_only_entry:
  "\<not> has_dot key \<Longrightarrow> set (keys (errors s)) \<subseteq> {key} \<Longrightarrow>
   (\<forall>f. \<not> fs_isInvalid (getFieldState (clearError_ts s key) f)) \<and> \<not> isValid (clearError_ts s key)"
proof -
  assume k: "\<not> has_dot key" and o: "set (keys (errors s)) \<subseteq> {key}"
  have l: "lookup (errors s) f = VUndefined" if "f \<noteq> key" for f
  proof -
    from o that have "f \<notin> fst ` set (errors s)" by (auto simp add: keys_def)
    then have "map_of (errors s) f = None" by (simp add: map_of_eq_None_iff)
    then show ?thesis by (simp add: lookup_def)
  qed
  show ?thesis
    using k l
    by (simp add: clearError_ts_plain getFieldState_def lookup_assign isValid_def Let_def
        assign_not_Nil)
qed

text \<open>
  C8 does not hold of \<open>index.ts\<close>: the agreement between the validity of the fields and
  the validity of the form is not preserved by \<open>clearError\<close>. On a new form,
  \<open>setError('foo', 'required')\<close> followed by \<open>clearError('foo')\<close> reaches a store whose
  error map is \<open>{foo: undefined}\<close>: no field is reported invalid, the field \<open>foo\<close> has no
  non-empty entry, and yet the error map is not empty and the form is not valid. The
  other ways of removing the error of \<open>foo\<close> from the same store do remove the key and
  leave a valid form: \<open>rollback('foo')\<close>, which deletes the key, \<open>clearErrors\<close>, and
  \<open>clearError\<close> of \<open>formidable.gts\<close>, which unsets the key.
\<close>

theorem clearError_leaves_form_not_valid:
  "reachable_ts plain_args
     (clearError_ts (fst (setError_ts (new_store_ts False [] []) ''foo'' (VStr ''required''))) ''foo'')
   \<and> errors (fst (setError_ts (new_store_ts False [] []) ''foo'' (VStr ''required'')))
       = [(''foo'', required_error)]
   \<and> errors
       (clearError_ts (fst (setError_ts (new_store_ts False [] []) ''foo'' (VStr ''required''))) ''foo'')
       = [(''foo'', VUndefined)]
   \<and> (\<forall>f. \<not> fs_isInvalid (getFieldState
       (clearError_ts (fst (setError_ts (new_store_ts False [] []) ''foo'' (VStr ''required''))) ''foo'')
       f))
   \<and> \<not> isValid
       (clearError_ts (fst (setError_ts (new_store_ts False [] []) ''foo'' (VStr ''required''))) ''foo'')
   \<and> isValid
       (rollback_ts (fst (setError_ts (new_store_ts False [] []) ''foo'' (VStr ''required'')))
          (Some ''foo'') no_context)
   \<and> isValid (clearErrors (fst (setError_ts (new_store_ts False [] []) ''foo'' (VStr ''required''))))
   \<and> isValid
       (clearError (fst (setError plain_args (new_store []) ''foo'' (VStr ''required''))) ''foo'')"
proof -
  let ?s1 = "fst (setError_ts (new_store_ts False [] []) ''foo'' (VStr ''required''))"
  have r: "reachable_ts plain_args (clearError_ts ?s1 ''foo'')"
    by (intro reachable_ts.intros)
  have e1: "errors ?s1 = [(''foo'', required_error)]"
    by (simp add: setError_ts_def new_store_ts_def append_error_def error_record_def lookup_def
        nullish_or_def mk_array_def cloneDeep_bag_def required_error_def)
  have e: "errors (clearError_ts ?s1 ''foo'') = [(''foo'', VUndefined)]"
    by (simp add: clearError_ts_def e1 lodash_set_def castPath_def has_dot_def)
  have i: "\<forall>f. \<not> fs_isInvalid (getFieldState (clearError_ts ?s1 ''foo'') f)"
    by (simp add: getFieldState_def e lookup_def Let_def)
  have v: "\<not> isValid (clearError_ts ?s1 ''foo'')"
    by (simp add: isValid_def e)
  have b: "isValid (rollback_ts ?s1 (Some ''foo'') no_context)"
    by (simp add: isValid_def rollback_ts_def rollback_field_ts_def no_context_def e1 delete_def
        Let_def)
  have c: "isValid (clearErrors ?s1)"
    by (simp add: isValid_def clearErrors_def)
  have d: "isValid (clearError (fst (setError plain_args (new_store []) ''foo'' (VStr ''required''))) ''foo'')"
    by (simp add: isValid_def clearError_def setError_def new_store_def append_error_def
        error_record_def lookup_def nullish_or_def mk_array_def cloneDeep_bag_def
        lodash_unset_def castPath_def has_dot_def delete_def)
  from r e1 e i v b c d show ?thesis by blast
qed

subsection \<open>Submit\<close>

lemma parsedValues_flags [simp]:
  "parsedValues a (s\<lparr>isValidating := x\<rparr>) = parsedValues a s"
  "parsedValues a (s\<lparr>isSubmitting := y\<rparr>) = parsedValues a s"
  "parsedValues a (s\<lparr>isSubmitted := z\<rparr>) = parsedValues a s"
  "parsedValues a (s\<lparr>submitCount := n\<rparr>) = parsedValues a s"
  by (simp_all add: parsedValues_def)

lemma parsedValues_ts_flags [simp]:
  "parsedValues_ts a (s\<lparr>isSubmitted := z\<rparr>) = parsedValues_ts a s"
  "parsedValues_ts a (s\<lparr>submitCount := n\<rparr>) = parsedValues_ts a s"
  by (simp_all add: parsedValues_ts_eq)







subsection \<open>Whole-form rollback\<close>

lemma writeback_fixed:
  "\<forall>e \<in> set es. map_of w (fst e) = Some (snd e) \<Longrightarrow>
   foldl (\<lambda>vs e. assign vs (fst e) (snd e)) w es = w"
  by (induction es) (simp_all add: assign_same)

lemma map_of_writeback:
  "distinct (keys es) \<Longrightarrow> e \<in> set es \<Longrightarrow>
   map_of (foldl (\<lambda>vs e. assign vs (fst e) (snd e)) w es) (fst e) = Some (snd e)"
proof (induction es arbitrary: w rule: rev_induct)
  case Nil
  then show ?case by simp
next
  case (snoc x xs)
  have d: "distinct (keys xs)" and n: "fst x \<notin> set (keys xs)"
    using snoc.prems(1) by (simp_all add: keys_def)
  show ?case
  proof (cases "e = x")
    case True
    then show ?thesis by (simp add: map_of_assign)
  next
    case False
    with snoc.prems(2) have m: "e \<in> set xs" by simp
    then have "fst e \<in> set (keys xs)" by (simp add: keys_def)
    with n have "fst e \<noteq> fst x" by auto
    then show ?thesis using snoc.IH [OF d m] by (simp add: map_of_assign)
  qed
qed

lemma writeback_idem:
  assumes "distinct (keys es)"
  shows "foldl (\<lambda>vs e. assign vs (fst e) (snd e))
           (foldl (\<lambda>vs e. assign vs (fst e) (snd e)) w es) es
         = foldl (\<lambda>vs e. assign vs (fst e) (snd e)) w es"
  by (rule writeback_fixed) (simp add: map_of_writeback [OF assms])

lemma map_of_writeback_other:
  "k \<notin> set (keys es) \<Longrightarrow>
   map_of (foldl (\<lambda>vs e. assign vs (fst e) (snd e)) w es) k = map_of w k"
  by (induction es arbitrary: w) (simp_all add: map_of_assign keys_def)

lemma rollback_all_ts_record:
  "isModel s \<Longrightarrow>
   values_bag (rollback_ts s None ctx)
     = foldl (\<lambda>vs e. assign vs (fst e) (snd e)) (values_bag s) (rollbackValues s)"
  by (simp add: rollback_ts_def rollback_all_ts_def Let_def)

text \<open>
  C5, amended. Rolling the whole form back twice gives the store that rolling it back
  once gives, for every choice of \<open>keepError\<close> and \<open>keepDirty\<close>; each call empties the
  error map unless \<open>keepError\<close> and the dirty set unless \<open>keepDirty\<close>, and sets
  \<open>isSubmitted\<close> to false. For a form over a plain object (every form of
  \<open>formidable.gts\<close>, and a form of \<open>index.ts\<close> whose values are not a record) each call
  replaces the values by a deep copy of the snapshot. For a form of \<open>index.ts\<close> over a
  record, the names of the snapshot entries being distinct (as the attribute names of a
  record are), each call keeps the record and writes every snapshot entry back into it:
  afterwards every property named in the snapshot holds its snapshot value, and every
  other property of the record holds the value it had.
\<close>

theorem rollback_all_idempotent:
  "rollback (rollback s None ctx) None ctx = rollback s None ctx
   \<and> values_bag (rollback s None ctx) = cloneDeep_bag (rollbackValues s)
   \<and> errors (rollback s None ctx) = (if keepError ctx then errors s else [])
   \<and> dirtyFields (rollback s None ctx) = (if keepDirty ctx then dirtyFields s else [])
   \<and> \<not> isSubmitted (rollback s None ctx)
   \<and> errors (rollback_ts s None ctx) = (if keepError ctx then errors s else [])
   \<and> dirtyFields (rollback_ts s None ctx) = (if keepDirty ctx then dirtyFields s else [])
   \<and> \<not> isSubmitted (rollback_ts s None ctx)
   \<and> (\<not> isModel s \<longrightarrow>
        rollback_ts (rollback_ts s None ctx) None ctx = rollback_ts s None ctx
        \<and> values_bag (rollback_ts s None ctx) = cloneDeep_bag (rollbackValues s))
   \<and> (isModel s \<and> distinct (keys (rollbackValues s)) \<longrightarrow>
        rollback_ts (rollback_ts s None ctx) None ctx = rollback_ts s None ctx
        \<and> (\<forall>e \<in> set (rollbackValues s).
             map_of (values_bag (rollback_ts s None ctx)) (fst e) = Some (snd e))
        \<and> (\<forall>k. k \<notin> set (keys (rollbackValues s)) \<longrightarrow>
             map_of (values_bag (rollback_ts s None ctx)) k = map_of (values_bag s) k))"
proof -
  have 1: "rollback (rollback s None ctx) None ctx = rollback s None ctx
   \<and> values_bag (rollback s None ctx) = cloneDeep_bag (rollbackValues s)
   \<and> errors (rollback s None ctx) = (if keepError ctx then errors s else [])
   \<and> dirtyFields (rollback s None ctx) = (if keepDirty ctx then dirtyFields s else [])
   \<and> \<not> isSubmitted (rollback s None ctx)"
    by (simp add: rollback_def rollback_all_def Let_def)
  have 2: "errors (rollback_ts s None ctx) = (if keepError ctx then errors s else [])
   \<and> dirtyFields (rollback_ts s None ctx) = (if keepDirty ctx then dirtyFields s else [])
   \<and> \<not> isSubmitted (rollback_ts s None ctx)"
    by (simp add: rollback_ts_def rollback_all_ts_def Let_def)
  have 3: "\<not> isModel s \<longrightarrow>
        rollback_ts (rollback_ts s None ctx) None ctx = rollback_ts s None ctx
        \<and> values_bag (rollback_ts s None ctx) = cloneDeep_bag (rollbackValues s)"
    by (simp add: rollback_ts_def rollback_all_ts_def Let_def)
  have 4: "isModel s \<and> distinct (keys (rollbackValues s)) \<longrightarrow>
        rollback_ts (rollback_ts s None ctx) None ctx = rollback_ts s None ctx"
    by (simp add: rollback_ts_def rollback_all_ts_def Let_def writeback_idem)
  have 5: "isModel s \<and> distinct (keys (rollbackValues s)) \<longrightarrow>
        (\<forall>e \<in> set (rollbackValues s).
             map_of (values_bag (rollback_ts s None ctx)) (fst e) = Some (snd e))
        \<and> (\<forall>k. k \<notin> set (keys (rollbackValues s)) \<longrightarrow>
             map_of (values_bag (rollback_ts s None ctx)) k = map_of (values_bag s) k)"
    by (simp add: rollback_all_ts_record map_of_writeback map_of_writeback_other)
  from 1 2 3 4 5 show ?thesis by blast
qed

text \<open>
  C5 as stated fails for a form of \<open>index.ts\<close> over a record. The record has the
  attribute \<open>str\<close> and, as every record has, the property \<open>id\<close>, which is no attribute
  and so is not in the snapshot. After the rollback the values are still the record, with
  its \<open>id\<close>: they are not a deep copy of the snapshot, which holds \<open>str\<close> only.
\<close>

theorem rollback_all_counterexample:
  "isModel record_with_id
   \<and> values_bag (rollback_ts record_with_id None no_context)
     = [(''id'', VStr ''1''), (''str'', VStr ''Child'')]
   \<and> cloneDeep_bag (rollbackValues record_with_id) = [(''str'', VStr ''Child'')]"
  by (simp add: record_with_id_def new_store_ts_def rollback_ts_def rollback_all_ts_def
      no_context_def cloneDeep_bag_def ember_get_def has_dot_def lookup_def Let_def)

theorem rollback_all_idempotent_witness:
  "\<not> isModel foo_form
   \<and> rollback_ts (rollback_ts foo_form None no_context) None no_context
       = rollback_ts foo_form None no_context
   \<and> values_bag (rollback_ts foo_form None no_context) = [(''foo'', VStr [])]
   \<and> isModel changed_record
   \<and> values_bag changed_record = [(''id'', VStr ''1''), (''str'', VStr ''Changed'')]
   \<and> rollbackValues changed_record = [(''str'', VStr ''Child'')]
   \<and> distinct (keys (rollbackValues changed_record))
   \<and> (''str'', VStr ''Child'') \<in> set (rollbackValues changed_record)
   \<and> ''id'' \<notin> set (keys (rollbackValues changed_record))
   \<and> rollback_ts (rollback_ts changed_record None no_context) None no_context
       = rollback_ts changed_record None no_context
   \<and> map_of (values_bag (rollback_ts changed_record None no_context)) ''str''
       = Some (VStr ''Child'')
   \<and> map_of (values_bag (rollback_ts changed_record None no_context)) ''id''
       = Some (VStr ''1'')"
proof -
  have 1: "\<not> isModel foo_form"
    and 2: "cloneDeep_bag (rollbackValues foo_form) = [(''foo'', VStr [])]"
    by (simp_all add: foo_form_def new_store_def cloneDeep_bag_def)
  have v: "values_bag changed_record = [(''id'', VStr ''1''), (''str'', VStr ''Changed'')]"
    and rv: "rollbackValues changed_record = [(''str'', VStr ''Child'')]"
    and 3: "isModel changed_record"
    by (simp_all add: changed_record_def record_with_id_def new_store_ts_def setValue_ts_def
        ember_set_def split_dots_no_dot has_dot_def model_value_def no_flags_def ember_get_def
        lookup_def plain_args_def Let_def)
  have 4: "distinct (keys (rollbackValues changed_record))"
    "(''str'', VStr ''Child'') \<in> set (rollbackValues changed_record)"
    "''id'' \<notin> set (keys (rollbackValues changed_record))"
    by (simp_all add: rv keys_def)
  have m: "map_of (values_bag changed_record) ''id'' = Some (VStr ''1'')"
    by (simp add: v)
  note t1 = rollback_all_idempotent [of foo_form no_context]
  note t2 = rollback_all_idempotent [of changed_record no_context]
  have a: "rollback_ts (rollback_ts foo_form None no_context) None no_context
       = rollback_ts foo_form None no_context"
    "values_bag (rollback_ts foo_form None no_context) = cloneDeep_bag (rollbackValues foo_form)"
    using t1 1 by blast+
  have b: "rollback_ts (rollback_ts changed_record None no_context) None no_context
       = rollback_ts changed_record None no_context"
    using t2 3 4 by blast
  have c: "map_of (values_bag (rollback_ts changed_record None no_context))
             (fst (''str'', VStr ''Child'')) = Some (snd (''str'', VStr ''Child''))"
    using t2 3 4 by blast
  have d: "map_of (values_bag (rollback_ts changed_record None no_context)) ''id''
       = map_of (values_bag changed_record) ''id''"
    using t2 3 4 by blast
  show ?thesis
    using 1 3 4 v rv a b c d unfolding 2 m by simp
qed

subsection \<open>The dirty flag\<close>

text \<open>
  C1 as stated fails. In \<open>formidable.gts\<close> the flag compares the parsed value of the field
  with the value of the snapshot as it is stored, not with the parsed snapshot value. A
  field registered with \<open>valueAsBoolean\<close>, whose snapshot value is the string \<open>yes\<close>, is
  set to \<open>yes\<close> again: it is marked dirty, although the parsed new value (\<open>true\<close>) equals
  the parsed snapshot value (\<open>true\<close>).
\<close>

theorem dirty_flag_counterexample:
  "fs_isDirty (getFieldState
      (fst (setValue plain_args agree_form ''agree'' (VStr ''yes'') dirty_only)) ''agree'')
     = VBool True
   \<and> isEqual (formatValue (js plain_args) (VStr ''yes'') (map_of (parsers agree_form) ''agree''))
       (formatValue (js plain_args) (getDefaultValue agree_form ''agree'')
          (map_of (parsers agree_form) ''agree''))"
  by (simp add: setValue_def dirty_only_def dirtyField_def agree_form_def register_def
      new_store_def cloneDeep_bag_def getFieldState_def lookup_def nullish_or_def
      ember_get_def has_dot_def parsedValues_def lodash_set_def castPath_def formatValue_def
      boolean_parser_def keys_def getDefaultValue_def plain_args_def Let_def)

text \<open>
  C1, amended. After \<open>setValue(f, v, {shouldDirty: true})\<close> of \<open>formidable.gts\<close>, the dirty
  flag of \<open>f\<close> is true exactly when the parsed value of \<open>f\<close> (\<open>getValue(f)\<close>) is not deeply
  equal to the snapshot value of \<open>f\<close> as stored (\<open>getDefaultValue(f)\<close>, not parsed). After
  the \<open>setValue\<close> of \<open>index.ts\<close> the flag is true, whatever the values.
\<close>

theorem dirty_flag_after_setValue:
  "shouldDirty ctx \<Longrightarrow>
   fs_isDirty (getFieldState (fst (setValue a s f v ctx)) f) =
     VBool (\<not> isEqual (getDefaultValue s f) (getValue a (fst (setValue a s f v ctx)) f))
   \<and> (snd (setValue_ts a s f v ctx) = None \<longrightarrow>
        fs_isDirty (getFieldState (fst (setValue_ts a s f v ctx)) f) = VBool True)"
proof -
  assume d: "shouldDirty ctx"
  let ?s1 = "s\<lparr>values_bag := assign (values_bag s) f v\<rparr>"
  let ?s' = "fst (setValue a s f v ctx)"
  have df: "dirtyFields ?s' = dirtyFields (dirtyField a ?s1 f)"
    using d by (simp add: setValue_def Let_def)
  have pv: "parsedValues a ?s' = parsedValues a ?s1"
    using d by (intro parsedValues_cong) (simp_all add: setValue_def Let_def dirtyField_def)
  have 1: "fs_isDirty (getFieldState ?s' f) =
     VBool (\<not> isEqual (getDefaultValue s f) (getValue a ?s' f))"
    by (simp add: getFieldState_def Let_def df dirtyField_def lookup_assign nullish_or_def
        getDefaultValue_def getValue_def pv)
  have 2: "snd (setValue_ts a s f v ctx) = None \<longrightarrow>
        fs_isDirty (getFieldState (fst (setValue_ts a s f v ctx)) f) = VBool True"
    using d
    by (auto simp add: setValue_ts_def getFieldState_def Let_def lookup_assign nullish_or_def
        split: option.splits)
  from 1 2 show ?thesis by simp
qed

theorem dirty_flag_after_setValue_witness:
  "shouldDirty dirty_only
   \<and> getDefaultValue agree_form ''agree'' = VStr ''yes''
   \<and> getValue plain_args (fst (setValue plain_args agree_form ''agree'' (VStr ''yes'') dirty_only))
        ''agree'' = VBool True
   \<and> fs_isDirty (getFieldState
        (fst (setValue plain_args agree_form ''agree'' (VStr ''yes'') dirty_only)) ''agree'')
       = VBool True
   \<and> snd (setValue_ts plain_args agree_form ''agree'' (VStr ''yes'') dirty_only) = None
   \<and> fs_isDirty (getFieldState
        (fst (setValue_ts plain_args agree_form ''agree'' (VStr ''yes'') dirty_only)) ''agree'')
       = VBool True"
proof -
  have h: "shouldDirty dirty_only" by (simp add: dirty_only_def)
  have g: "getDefaultValue agree_form ''agree'' = VStr ''yes''"
    "getValue plain_args (fst (setValue plain_args agree_form ''agree'' (VStr ''yes'') dirty_only))
        ''agree'' = VBool True"
    "snd (setValue_ts plain_args agree_form ''agree'' (VStr ''yes'') dirty_only) = None"
    by (simp_all add: setValue_def setValue_ts_def dirty_only_def dirtyField_def agree_form_def
        register_def new_store_def cloneDeep_bag_def lookup_def getValue_def
        ember_get_def has_dot_def parsedValues_def lodash_set_def castPath_def formatValue_def
        boolean_parser_def keys_def getDefaultValue_def plain_args_def Let_def)
  show ?thesis
    using h g dirty_flag_after_setValue
      [OF h, of plain_args agree_form "''agree''" "VStr ''yes''"]
    by simp
qed

subsection \<open>Reading a path after writing paths\<close>

text \<open>The definitions that the closed examples unfold.\<close>

lemmas ex_defs = no_flags_def number_parser_def number_form_def default_form_def nested_form_def
  nested_form_ts_def with_default_def nested_errors_def nested_args_def plain_args_def
  agree_form_def boolean_parser_def dirty_only_def no_context_def foo_form_def
  new_store_def new_store_ts_def register_def cloneDeep_bag_def required_error_def mk_array_def
  flat_errors_def flat_args_def shout_parser_def record_form_def

lemmas op_defs = setValue_def setValue_ts_def dirtyField_def getValue_def getValue_ts_def
  getDefaultValue_def parsedValues_def parsedValues_ts_eq formatValue_def lodash_set_def
  castPath_def has_dot_def ember_get_def lookup_def keys_def nullish_or_def isIndex_def
  is_digit_def Let_def rollback_def rollback_field_def rollback_all_def lodash_unset_def
  delete_def validate_def validate_ts_def settle_validation_def apply_validation_def
  getFieldState_def

lemmas run_defs = run_events_def run_events_ts_def start_def write_ok_def write_ok_ts_def
  validating_args_def require_foo_def

lemma getProp_assignKey:
  "isObject w \<Longrightarrow> getProp (assignKey w k v) k' = (if k' = k then v else getProp w k')"
  by (cases w) (simp_all add: lookup_assign)

lemma isObject_assignKey: "isObject w \<Longrightarrow> isObject (assignKey w k v)"
  by (cases w) simp_all

lemma not_isNil_assignKey: "isObject w \<Longrightarrow> \<not> isNil (assignKey w k v)"
  by (cases w) simp_all

lemma isObject_not_isNil: "isObject w \<Longrightarrow> \<not> isNil w"
  by (cases w) simp_all

lemma isObject_baseSet: "isObject w \<Longrightarrow> isObject (baseSet w p v)"
  by (cases "(w, p, v)" rule: baseSet.cases) (simp_all add: isObject_assignKey Let_def)

lemma getPath_Undefined: "getPath VUndefined p = VUndefined"
  by (cases p) simp_all

lemma getPath_nonobject: "\<not> isObject u \<Longrightarrow> p \<noteq> [] \<Longrightarrow> getPath u p = VUndefined"
  by (cases p; cases u) (simp_all add: getPath_Undefined)

lemma getPath_fresh:
  "p \<noteq> [] \<Longrightarrow> getPath (VObj []) p = VUndefined"
  "p \<noteq> [] \<Longrightarrow> getPath (VArr 0 []) p = VUndefined"
  by (cases p; simp add: lookup_def getPath_Undefined)+

lemma getPath_baseSet_same:
  "isObject w \<Longrightarrow> p \<noteq> [] \<Longrightarrow> getPath (baseSet w p v) p = v"
proof (induction w p v rule: baseSet.induct)
  case (1 nested v)
  then show ?case by simp
next
  case (2 nested k v)
  then show ?case by (simp add: getProp_assignKey not_isNil_assignKey)
next
  case (3 nested k k' ks v)
  let ?new = "if isObject (getProp nested k) then getProp nested k
              else if isIndex k' then VArr 0 [] else VObj []"
  have o: "isObject ?new" by simp
  have bs: "baseSet nested (k # k' # ks) v = assignKey nested k (baseSet ?new (k' # ks) v)"
    by (simp add: Let_def)
  have ih: "getPath (baseSet ?new (k' # ks) v) (k' # ks) = v"
    using "3.IH" [OF refl refl o] by simp
  have "getPath (assignKey nested k (baseSet ?new (k' # ks) v)) (k # k' # ks)
        = getPath (baseSet ?new (k' # ks) v) (k' # ks)"
    using "3.prems"(1) by (simp add: getProp_assignKey not_isNil_assignKey)
  with ih show ?case unfolding bs by simp
qed

lemma comparable_Nil2: "comparable p []"
  by (cases p) simp_all

lemma getPath_baseSet_other:
  "isObject w \<Longrightarrow> \<not> comparable q p \<Longrightarrow> getPath (baseSet w q x) p = getPath w p"
proof (induction w q x arbitrary: p rule: baseSet.induct)
  case (1 nested v)
  then show ?case by simp
next
  case (2 nested k v)
  then obtain k' ps where p: "p = k' # ps" by (cases p) (auto simp: comparable_Nil2)
  with "2.prems" have "k' \<noteq> k" by (auto simp: comparable_Nil2)
  then show ?case
    using "2.prems"(1) p
    by (simp add: getProp_assignKey not_isNil_assignKey isObject_not_isNil)
next
  case (3 nested k k' ks v)
  then obtain j ps where p: "p = j # ps" by (cases p) (auto simp: comparable_Nil2)
  let ?new = "if isObject (getProp nested k) then getProp nested k
              else if isIndex k' then VArr 0 [] else VObj []"
  have o: "isObject ?new" by simp
  have bs: "baseSet nested (k # k' # ks) v = assignKey nested k (baseSet ?new (k' # ks) v)"
    by (simp add: Let_def)
  show ?case
  proof (cases "j = k")
    case False
    then show ?thesis
      using "3.prems"(1) p unfolding bs
      by (simp add: getProp_assignKey not_isNil_assignKey isObject_not_isNil)
  next
    case True
    with "3.prems"(2) p have nc: "\<not> comparable (k' # ks) ps" by simp
    then have ne: "ps \<noteq> []" by (auto simp: comparable_Nil2)
    have ih: "getPath (baseSet ?new (k' # ks) v) ps = getPath ?new ps"
      using "3.IH" [OF refl refl o nc] by simp
    have "getPath ?new ps = getPath (getProp nested k) ps"
      using ne by (simp add: getPath_fresh getPath_nonobject)
    then show ?thesis
      using "3.prems"(1) p True ih unfolding bs
      by (simp add: getProp_assignKey not_isNil_assignKey isObject_not_isNil)
  qed
qed

lemma ember_get_getPath: "ember_get es k = getPath (VObj es) (split_dots k)"
  by (simp add: ember_get_def split_dots_no_dot)

lemma baseSet_VObj: "baseSet (VObj es) p v = VObj (entries (baseSet (VObj es) p v))"
  by (cases "(VObj es, p, v)" rule: baseSet.cases) (simp_all add: Let_def)

lemma VObj_lodash_set: "VObj (lodash_set es k v) = baseSet (VObj es) (castPath k es) v"
  unfolding lodash_set_def using baseSet_VObj [of es "castPath k es" v] by simp

lemma getPath_lodash_set_same:
  "plain_keys es \<Longrightarrow> getPath (VObj (lodash_set es k v)) (split_dots k) = v"
  by (simp add: VObj_lodash_set castPath_plain getPath_baseSet_same split_dots_not_Nil)

lemma getPath_lodash_set_other:
  "plain_keys es \<Longrightarrow> \<not> overlaps k f \<Longrightarrow>
   getPath (VObj (lodash_set es k v)) (split_dots f) = getPath (VObj es) (split_dots f)"
  by (simp add: VObj_lodash_set castPath_plain getPath_baseSet_other overlaps_def)

lemma fold_set_plain:
  "plain_keys acc \<Longrightarrow> plain_keys (foldl (\<lambda>obj e. lodash_set obj (fst e) (g e)) acc es)"
  by (induction es arbitrary: acc) (simp_all add: plain_keys_lodash_set)

lemma fold_set_other:
  "plain_keys acc \<Longrightarrow> \<forall>k \<in> set (keys es). \<not> overlaps k f \<Longrightarrow>
   getPath (VObj (foldl (\<lambda>obj e. lodash_set obj (fst e) (g e)) acc es)) (split_dots f)
     = getPath (VObj acc) (split_dots f)"
proof (induction es arbitrary: acc)
  case Nil
  then show ?case by simp
next
  case (Cons e es)
  have p: "plain_keys (lodash_set acc (fst e) (g e))"
    using Cons.prems(1) by (rule plain_keys_lodash_set)
  have n: "\<not> overlaps (fst e) f" and r: "\<forall>k \<in> set (keys es). \<not> overlaps k f"
    using Cons.prems(2) by (simp_all add: keys_def)
  show ?case
    using Cons.IH [OF p r] getPath_lodash_set_other [OF Cons.prems(1) n]
    by simp
qed

lemma later_keys_Cons:
  "later_keys (e # es) f = (if fst e = f then keys es else later_keys es f)"
  by (simp add: later_keys_def)

lemma fold_set_read:
  "plain_keys acc \<Longrightarrow> map_of es f = Some v \<Longrightarrow>
   \<forall>k \<in> set (later_keys es f). \<not> overlaps k f \<Longrightarrow>
   getPath (VObj (foldl (\<lambda>obj e. lodash_set obj (fst e) (g e)) acc es)) (split_dots f)
     = g (f, v)"
proof (induction es arbitrary: acc)
  case Nil
  then show ?case by simp
next
  case (Cons e es)
  have p: "plain_keys (lodash_set acc (fst e) (g e))"
    using Cons.prems(1) by (rule plain_keys_lodash_set)
  show ?case
  proof (cases "fst e = f")
    case True
    with Cons.prems(2) have e: "e = (f, v)" by (cases e) simp
    have r: "\<forall>k \<in> set (keys es). \<not> overlaps k f"
      using Cons.prems(3) True by (simp add: later_keys_Cons)
    show ?thesis
      using fold_set_other [OF p r, of g] getPath_lodash_set_same [OF Cons.prems(1)] e
      by simp
  next
    case False
    then have m: "map_of es f = Some v" using Cons.prems(2) by (cases e) (simp split: if_splits)
    have r: "\<forall>k \<in> set (later_keys es f). \<not> overlaps k f"
      using Cons.prems(3) False by (simp add: later_keys_Cons)
    show ?thesis using Cons.IH [OF p m r] by simp
  qed
qed

lemma getValue_read:
  assumes "map_of (values_bag s) f = Some v"
    and "\<forall>k \<in> set (later_keys (values_bag s) f). \<not> overlaps k f"
  shows "getValue a s f = formatValue (js a) v (map_of (parsers s) f)"
  unfolding getValue_def ember_get_getPath parsedValues_def
  using fold_set_read [OF plain_keys_Nil assms(1) assms(2),
      of "\<lambda>e. formatValue (js a) (snd e) (map_of (parsers s) (fst e))"]
  by simp

lemma later_keys_assign: "later_keys (assign es f v) f = later_keys es f"
  by (induction es) (auto simp: later_keys_Cons later_keys_def keys_def)

lemma getValue_assign:
  assumes "\<forall>k \<in> set (later_keys (values_bag s) f). \<not> overlaps k f"
    and "values_bag t = assign (values_bag s) f v" and "parsers t = parsers s"
  shows "getValue a t f = formatValue (js a) v (map_of (parsers s) f)"
  using getValue_read [of t f v a] assms by (simp add: map_of_assign later_keys_assign)

subsection \<open>Round trip\<close>

lemma formatValue_precedence:
  "formatValue c v None = v"
  "valueFormat p = Some g \<Longrightarrow> formatValue c v (Some p) = g v"
  "valueFormat p = None \<Longrightarrow> valueAsNumber p \<Longrightarrow> formatValue c v (Some p) = toNumber c v"
  "valueFormat p = None \<Longrightarrow> \<not> valueAsNumber p \<Longrightarrow> valueAsDate p \<Longrightarrow>
     formatValue c v (Some p) = toDate c v"
  "valueFormat p = None \<Longrightarrow> \<not> valueAsNumber p \<Longrightarrow> \<not> valueAsDate p \<Longrightarrow> valueAsBoolean p \<Longrightarrow>
     formatValue c v (Some p) = VBool (truthy v)"
  "valueFormat p = None \<Longrightarrow> \<not> valueAsNumber p \<Longrightarrow> \<not> valueAsDate p \<Longrightarrow> \<not> valueAsBoolean p \<Longrightarrow>
     formatValue c v (Some p) = v"
  by (simp_all add: formatValue_def)

lemma values_setValue:
  "values_bag (fst (setValue a s f v ctx)) = assign (values_bag s) f v"
  "parsers (fst (setValue a s f v ctx)) = parsers s"
  by (simp_all add: setValue_def dirtyField_def Let_def)

lemma values_setValue_ts:
  "\<not> isModel s \<Longrightarrow> values_bag (fst (setValue_ts a s f v ctx)) = assign (values_bag s) f v"
  "\<not> isModel s \<Longrightarrow> parsers (fst (setValue_ts a s f v ctx)) = parsers s"
  "\<not> isModel s \<Longrightarrow> isModel (fst (setValue_ts a s f v ctx)) = isModel s"
  by (simp_all add: setValue_ts_def Let_def)

text \<open>
  C6, amended. For a form over a plain object, that is every form of \<open>formidable.gts\<close>
  and a form of \<open>index.ts\<close> whose values are not a record: when no property that follows
  \<open>f\<close> in the values object has a name whose path overlaps the path of \<open>f\<close>,
  \<open>setValue(f, v)\<close> followed by \<open>getValue(f)\<close> returns \<open>v\<close> transformed by the one
  parse directive of \<open>f\<close>, in the precedence custom formatter, number, date, boolean,
  identity (\<open>formatValue_precedence\<close>). The statement is not about a form of \<open>index.ts\<close>
  over a record, where \<open>setValue\<close> itself applies the directive, in another order (see
  \<open>setValue_ts_record_precedence\<close> below).
\<close>

theorem setValue_getValue_roundtrip:
  "\<forall>k \<in> set (later_keys (values_bag s) f). \<not> overlaps k f \<Longrightarrow>
   getValue a (fst (setValue a s f v ctx)) f = formatValue (js a) v (map_of (parsers s) f)
   \<and> (\<not> isModel s \<longrightarrow>
        getValue_ts a (fst (setValue_ts a s f v ctx)) f
          = formatValue (js a) v (map_of (parsers s) f))"
proof -
  assume h: "\<forall>k \<in> set (later_keys (values_bag s) f). \<not> overlaps k f"
  have 1: "getValue a (fst (setValue a s f v ctx)) f = formatValue (js a) v (map_of (parsers s) f)"
    by (rule getValue_assign [OF h]) (simp_all add: values_setValue)
  have 2: "getValue_ts a (fst (setValue_ts a s f v ctx)) f
          = formatValue (js a) v (map_of (parsers s) f)" if m: "\<not> isModel s"
  proof -
    have "getValue_ts a (fst (setValue_ts a s f v ctx)) f
          = getValue a (fst (setValue_ts a s f v ctx)) f"
      using m by (simp add: getValue_ts_def getValue_def parsedValues_ts_eq values_setValue_ts)
    also have "\<dots> = formatValue (js a) v (map_of (parsers s) f)"
      by (rule getValue_assign [OF h]) (simp_all add: values_setValue_ts m)
    finally show ?thesis .
  qed
  from 1 2 show ?thesis by simp
qed

text \<open>
  C6 as stated fails. The form of the rollback test over \<open>{foo: {bar: 'DEFAULT'}}\<close> has
  its field \<open>foo.bar\<close> set to \<open>CHANGED\<close>, which adds the property \<open>foo.bar\<close> after
  \<open>foo\<close>. Then \<open>setValue('foo', 'x')\<close> is followed by \<open>getValue('foo')\<close>: the parsed
  values are built by setting \<open>foo\<close> and then the path \<open>foo.bar\<close>, which replaces the
  string by an object, and the read returns \<open>{bar: 'CHANGED'}\<close>, not \<open>x\<close> (the field has
  no directive). Both revisions behave so.
\<close>

theorem roundtrip_counterexample:
  "getValue plain_args
     (fst (setValue plain_args
        (fst (setValue plain_args nested_form ''foo.bar'' (VStr ''CHANGED'') no_flags))
        ''foo'' (VStr ''x'') no_flags)) ''foo''
     = VObj [(''bar'', VStr ''CHANGED'')]
   \<and> getValue_ts plain_args
     (fst (setValue_ts plain_args
        (fst (setValue_ts plain_args nested_form_ts ''foo.bar'' (VStr ''CHANGED'') no_flags))
        ''foo'' (VStr ''x'') no_flags)) ''foo''
     = VObj [(''bar'', VStr ''CHANGED'')]
   \<and> formatValue (js plain_args) (VStr ''x'') (map_of (parsers nested_form) ''foo'') = VStr ''x''
   \<and> formatValue (js plain_args) (VStr ''x'') (map_of (parsers nested_form_ts) ''foo'') = VStr ''x''"
  by (simp add: ex_defs op_defs)

theorem setValue_getValue_roundtrip_witness:
  "later_keys (values_bag number_form) ''foo'' = [''bar''] \<and> \<not> overlaps ''bar'' ''foo''
   \<and> \<not> isModel number_form
   \<and> getValue plain_args (fst (setValue plain_args number_form ''foo'' (VStr ''5'') no_flags)) ''foo''
       = VNum 5
   \<and> getValue_ts plain_args (fst (setValue_ts plain_args number_form ''foo'' (VStr ''5'') no_flags))
        ''foo'' = VNum 5"
proof -
  have l: "later_keys (values_bag number_form) ''foo'' = [''bar'']"
    by (simp add: ex_defs later_keys_def keys_def)
  have h: "\<forall>k \<in> set (later_keys (values_bag number_form) ''foo''). \<not> overlaps k ''foo''"
    unfolding l by (simp add: overlaps_def)
  have m: "\<not> isModel number_form" by (simp add: ex_defs)
  have f: "formatValue (js plain_args) (VStr ''5'') (map_of (parsers number_form) ''foo'') = VNum 5"
    by (simp add: ex_defs formatValue_def digit_coercions_def is_digit_def index_of_def digit_val_def)
  show ?thesis
    using l h m f setValue_getValue_roundtrip [OF h, of plain_args "VStr ''5''" no_flags]
    by (simp add: overlaps_def)
qed

text \<open>
  For a form of \<open>index.ts\<close> over a record, \<open>setValue\<close> applies the directive at the write,
  and the formatter comes last there: a field with \<open>valueAsBoolean\<close> and a formatter
  reads back as the boolean.
\<close>

lemma ember_set_plain: "\<not> has_dot k \<Longrightarrow> ember_set es k v = Some (assign es k v)"
  by (simp add: ember_set_def split_dots_no_dot)

lemma setValue_ts_record_precedence:
  assumes "isModel s" and "\<not> has_dot key" and "map_of (parsers s) key = Some p"
    and "\<not> valueAsNumber p" and "\<not> valueAsDate p" and "valueAsBoolean p"
  shows "getValue_ts a (fst (setValue_ts a s key v ctx)) key = VBool (truthy v)"
  using assms
  by (simp add: setValue_ts_def ember_set_plain model_value_def getValue_ts_def
      parsedValues_ts_eq ember_get_def lookup_assign Let_def)

lemma setValue_ts_record_example:
  "getValue_ts plain_args (fst (setValue_ts plain_args record_form ''str'' (VStr ''abc'') no_flags))
     ''str'' = VBool True
   \<and> formatValue (js plain_args) (VStr ''abc'') (map_of (parsers record_form) ''str'')
       = VStr ''FORMATTED''"
  by (simp add: ex_defs op_defs ember_set_plain model_value_def)

subsection \<open>Rollback of one field\<close>

lemma rollback_field_values:
  "values_bag (rollback_field s f ctx) =
     assign (values_bag s) f
       (nullish_or (defaultValue ctx) (nullish_or (lookup (rollbackValues s) f) VUndefined))"
  "parsers (rollback_field s f ctx) = parsers s"
  "rollbackValues (rollback_field s f ctx) =
     (if truthy (defaultValue ctx) then assign (rollbackValues s) f (defaultValue ctx)
      else rollbackValues s)"
  by (simp_all add: rollback_field_def Let_def)

lemma truthy_not_isNil: "truthy d \<Longrightarrow> \<not> isNil d"
  by (cases d) simp_all

lemma isNil_not_truthy: "isNil d \<Longrightarrow> \<not> truthy d"
  by (cases d) simp_all

lemma rollback_field_ts_values:
  "values_bag (rollback_field_ts s f ctx) =
     assign (values_bag s) f
       (nullish_or (defaultValue ctx) (nullish_or (lookup (rollbackValues s) f) VUndefined))"
  "parsers (rollback_field_ts s f ctx) = parsers s"
  "rollbackValues (rollback_field_ts s f ctx) = rollbackValues s"
  "isModel (rollback_field_ts s f ctx) = isModel s"
  by (simp_all add: rollback_field_ts_def Let_def)

lemma getValue_ts_plain: "\<not> isModel t \<Longrightarrow> getValue_ts a t f = getValue a t f"
  by (simp add: getValue_ts_def getValue_def parsedValues_ts_eq)

lemma nullish_or_given: "\<not> isNil d \<Longrightarrow> nullish_or d e = d"
  by (cases d) (simp_all add: nullish_or_def)

lemma nullish_or_nil: "isNil d \<Longrightarrow> nullish_or d e = e"
  by (cases d) (simp_all add: nullish_or_def)

text \<open>
  C4, amended. For every field \<open>f\<close> (a name that is not empty), with or without dots:

  \<^item> in both revisions, \<open>rollback(f, {defaultValue: d})\<close> with \<open>d\<close> supplied (neither
    \<open>undefined\<close> nor \<open>null\<close>) sets the live value of \<open>f\<close> to \<open>d\<close>; when no later
    property of the values object overlaps \<open>f\<close>, \<open>getValue(f)\<close> is then \<open>d\<close> passed
    through the parse directive of \<open>f\<close>, in \<open>formidable.gts\<close> and, for a form over a
    plain object, in \<open>index.ts\<close>;
  \<^item> in \<open>formidable.gts\<close>, when \<open>d\<close> is truthy and \<open>f\<close> has no dot, \<open>d\<close> becomes the
    snapshot value of \<open>f\<close>: \<open>getDefaultValue(f)\<close> is \<open>d\<close>;
  \<^item> in both revisions, without \<open>defaultValue\<close> (\<open>undefined\<close> or \<open>null\<close>) the snapshot
    is unchanged and, when \<open>f\<close> has no dot, the live value of \<open>f\<close> becomes the snapshot
    value of \<open>f\<close>, or \<open>undefined\<close> when the snapshot has none; when no later property
    overlaps \<open>f\<close>, \<open>getValue(f)\<close> is that value passed through the parse directive, in
    \<open>formidable.gts\<close> and, for a form over a plain object, in \<open>index.ts\<close>.
\<close>

theorem rollback_field_default:
  "f \<noteq> [] \<Longrightarrow>
   (\<not> isNil (defaultValue ctx) \<longrightarrow>
      lookup (values_bag (rollback s (Some f) ctx)) f = defaultValue ctx
      \<and> lookup (values_bag (rollback_ts s (Some f) ctx)) f = defaultValue ctx)
   \<and> (\<not> isNil (defaultValue ctx)
        \<and> (\<forall>k \<in> set (later_keys (values_bag s) f). \<not> overlaps k f) \<longrightarrow>
      getValue a (rollback s (Some f) ctx) f
          = formatValue (js a) (defaultValue ctx) (map_of (parsers s) f)
      \<and> (\<not> isModel s \<longrightarrow>
           getValue_ts a (rollback_ts s (Some f) ctx) f
             = formatValue (js a) (defaultValue ctx) (map_of (parsers s) f)))
   \<and> (truthy (defaultValue ctx) \<and> \<not> has_dot f \<longrightarrow>
      getDefaultValue (rollback s (Some f) ctx) f = defaultValue ctx)
   \<and> (isNil (defaultValue ctx) \<longrightarrow>
      rollbackValues (rollback s (Some f) ctx) = rollbackValues s
      \<and> rollbackValues (rollback_ts s (Some f) ctx) = rollbackValues s)
   \<and> (isNil (defaultValue ctx) \<and> \<not> has_dot f \<longrightarrow>
      lookup (values_bag (rollback s (Some f) ctx)) f
        = nullish_or (getDefaultValue s f) VUndefined
      \<and> lookup (values_bag (rollback_ts s (Some f) ctx)) f
        = nullish_or (getDefaultValue s f) VUndefined)
   \<and> (isNil (defaultValue ctx) \<and> \<not> has_dot f
        \<and> (\<forall>k \<in> set (later_keys (values_bag s) f). \<not> overlaps k f) \<longrightarrow>
      getValue a (rollback s (Some f) ctx) f
          = formatValue (js a) (nullish_or (getDefaultValue s f) VUndefined)
              (map_of (parsers s) f)
      \<and> (\<not> isModel s \<longrightarrow>
           getValue_ts a (rollback_ts s (Some f) ctx) f
             = formatValue (js a) (nullish_or (getDefaultValue s f) VUndefined)
                 (map_of (parsers s) f)))"
proof -
  assume f: "f \<noteq> []"
  let ?w = "nullish_or (defaultValue ctx) (nullish_or (lookup (rollbackValues s) f) VUndefined)"
  let ?h = "\<forall>k \<in> set (later_keys (values_bag s) f). \<not> overlaps k f"
  have r: "rollback s (Some f) ctx = rollback_field s f ctx"
    "rollback_ts s (Some f) ctx = rollback_field_ts s f ctx"
    using f by (simp_all add: rollback_def rollback_ts_def)
  have g: "getDefaultValue t f = lookup (rollbackValues t) f" if "\<not> has_dot f" for t
    using that by (simp add: getDefaultValue_def ember_get_def)
  have lv: "lookup (values_bag (rollback_field s f ctx)) f = ?w"
    "lookup (values_bag (rollback_field_ts s f ctx)) f = ?w"
    by (simp_all add: rollback_field_values rollback_field_ts_values lookup_assign)
  have gv: "getValue a (rollback_field s f ctx) f = formatValue (js a) ?w (map_of (parsers s) f)"
    if h: ?h
    by (rule getValue_assign [OF h]) (simp_all add: rollback_field_values)
  have gt: "getValue_ts a (rollback_field_ts s f ctx) f
      = formatValue (js a) ?w (map_of (parsers s) f)"
    if h: ?h and m: "\<not> isModel s"
  proof -
    have "getValue_ts a (rollback_field_ts s f ctx) f = getValue a (rollback_field_ts s f ctx) f"
      using m by (simp add: getValue_ts_plain rollback_field_ts_values)
    also have "\<dots> = formatValue (js a) ?w (map_of (parsers s) f)"
      by (rule getValue_assign [OF h]) (simp_all add: rollback_field_ts_values)
    finally show ?thesis .
  qed
  have 1: "\<not> isNil (defaultValue ctx) \<longrightarrow>
      lookup (values_bag (rollback s (Some f) ctx)) f = defaultValue ctx
      \<and> lookup (values_bag (rollback_ts s (Some f) ctx)) f = defaultValue ctx"
    unfolding r lv by (simp add: nullish_or_given)
  have 2: "\<not> isNil (defaultValue ctx) \<and> ?h \<longrightarrow>
      getValue a (rollback s (Some f) ctx) f
          = formatValue (js a) (defaultValue ctx) (map_of (parsers s) f)
      \<and> (\<not> isModel s \<longrightarrow>
           getValue_ts a (rollback_ts s (Some f) ctx) f
             = formatValue (js a) (defaultValue ctx) (map_of (parsers s) f))"
    unfolding r using gv gt by (simp add: nullish_or_given)
  have 3: "truthy (defaultValue ctx) \<and> \<not> has_dot f \<longrightarrow>
      getDefaultValue (rollback s (Some f) ctx) f = defaultValue ctx"
    unfolding r by (simp add: g rollback_field_values lookup_assign)
  have 4: "isNil (defaultValue ctx) \<longrightarrow>
      rollbackValues (rollback s (Some f) ctx) = rollbackValues s
      \<and> rollbackValues (rollback_ts s (Some f) ctx) = rollbackValues s"
    unfolding r by (simp add: rollback_field_values rollback_field_ts_values isNil_not_truthy)
  have 5: "isNil (defaultValue ctx) \<and> \<not> has_dot f \<longrightarrow>
      lookup (values_bag (rollback s (Some f) ctx)) f
        = nullish_or (getDefaultValue s f) VUndefined
      \<and> lookup (values_bag (rollback_ts s (Some f) ctx)) f
        = nullish_or (getDefaultValue s f) VUndefined"
    unfolding r lv by (simp add: g nullish_or_nil)
  have 6: "isNil (defaultValue ctx) \<and> \<not> has_dot f \<and> ?h \<longrightarrow>
      getValue a (rollback s (Some f) ctx) f
          = formatValue (js a) (nullish_or (getDefaultValue s f) VUndefined)
              (map_of (parsers s) f)
      \<and> (\<not> isModel s \<longrightarrow>
           getValue_ts a (rollback_ts s (Some f) ctx) f
             = formatValue (js a) (nullish_or (getDefaultValue s f) VUndefined)
                 (map_of (parsers s) f))"
    unfolding r using gv gt by (simp add: g nullish_or_nil)
  from 1 2 3 4 5 6 show ?thesis by blast
qed

text \<open>
  \<open>rollback\<close> of \<open>index.ts\<close> never writes the snapshot, whatever the default.
\<close>

lemma rollback_field_ts_snapshot:
  "rollbackValues (rollback_ts s (Some f) ctx) = rollbackValues s"
  by (simp add: rollback_ts_def rollback_field_ts_def rollback_all_ts_def Let_def)

text \<open>
  C4 as stated fails. In \<open>formidable.gts\<close>: (1) the field \<open>agree\<close> is registered with
  \<open>valueAsBoolean\<close>: after \<open>rollback('agree', {defaultValue: 'Shiny and new!'})\<close>,
  \<open>getValue('agree')\<close> is \<open>true\<close>, the parsed value, not the default. (2) With the empty
  string as default the value of \<open>foo\<close> becomes the empty string, and the snapshot keeps
  \<open>DEFAULT\<close>: the snapshot is written under \<open>if (defaultValue)\<close>. (3) For the dotted
  field \<open>foo.bar\<close> the new default is stored under the flat key while
  \<open>getDefaultValue\<close> walks the path: it still returns \<open>DEFAULT\<close>. (4) Without a default,
  the snapshot is read under the flat key too: \<open>foo.bar\<close> is reset to \<open>undefined\<close>,
  although the snapshot holds \<open>DEFAULT\<close>. In \<open>index.ts\<close>: (5) after
  \<open>rollback('foo', {defaultValue: 'Shiny and new!'})\<close> the live value of \<open>foo\<close> is the
  default and the snapshot value is still \<open>DEFAULT\<close>.
\<close>

theorem rollback_default_counterexample:
  "getValue plain_args
      (rollback agree_form (Some ''agree'') (with_default (VStr ''Shiny and new!''))) ''agree''
     = VBool True
   \<and> lookup (values_bag (rollback default_form (Some ''foo'') (with_default (VStr [])))) ''foo''
       = VStr []
   \<and> getDefaultValue (rollback default_form (Some ''foo'') (with_default (VStr []))) ''foo''
       = VStr ''DEFAULT''
   \<and> getDefaultValue (rollback nested_form (Some ''foo.bar'') (with_default (VStr ''X'')))
        ''foo.bar'' = VStr ''DEFAULT''
   \<and> getDefaultValue nested_form ''foo.bar'' = VStr ''DEFAULT''
   \<and> getValue plain_args (rollback nested_form (Some ''foo.bar'') no_context) ''foo.bar''
       = VUndefined
   \<and> lookup (values_bag
        (rollback_ts default_form (Some ''foo'') (with_default (VStr ''Shiny and new!'')))) ''foo''
       = VStr ''Shiny and new!''
   \<and> getDefaultValue
        (rollback_ts default_form (Some ''foo'') (with_default (VStr ''Shiny and new!''))) ''foo''
       = VStr ''DEFAULT''"
  by (simp add: ex_defs op_defs rollback_ts_def rollback_field_ts_def)

theorem rollback_field_default_witness:
  "''foo'' \<noteq> [] \<and> \<not> has_dot ''foo''
   \<and> later_keys (values_bag number_form) ''foo'' = [''bar''] \<and> \<not> overlaps ''bar'' ''foo''
   \<and> truthy (defaultValue (with_default (VStr ''7'')))
   \<and> \<not> isNil (defaultValue (with_default (VStr ''7''))) \<and> isNil (defaultValue no_context)
   \<and> \<not> isModel number_form
   \<and> lookup (values_bag (rollback number_form (Some ''foo'') (with_default (VStr ''7'')))) ''foo''
       = VStr ''7''
   \<and> lookup (values_bag (rollback_ts number_form (Some ''foo'') (with_default (VStr ''7'')))) ''foo''
       = VStr ''7''
   \<and> getDefaultValue (rollback number_form (Some ''foo'') (with_default (VStr ''7''))) ''foo''
       = VStr ''7''
   \<and> getValue plain_args (rollback number_form (Some ''foo'') (with_default (VStr ''7''))) ''foo''
       = VNum 7
   \<and> getValue_ts plain_args (rollback_ts number_form (Some ''foo'') (with_default (VStr ''7'')))
        ''foo'' = VNum 7
   \<and> rollbackValues (rollback number_form (Some ''foo'') no_context) = rollbackValues number_form
   \<and> lookup (values_bag (rollback number_form (Some ''foo'') no_context)) ''foo'' = VNum 404
   \<and> getValue plain_args (rollback number_form (Some ''foo'') no_context) ''foo'' = VNum 404
   \<and> getValue_ts plain_args (rollback_ts number_form (Some ''foo'') no_context) ''foo'' = VNum 404
   \<and> ''foo.bar'' \<noteq> [] \<and> later_keys (values_bag dotted_form) ''foo.bar'' = [''baz'']
   \<and> \<not> overlaps ''baz'' ''foo.bar'' \<and> \<not> isNil (defaultValue (with_default (VStr [])))
   \<and> lookup (values_bag (rollback dotted_form (Some ''foo.bar'') (with_default (VStr []))))
        ''foo.bar'' = VStr []
   \<and> getValue plain_args (rollback dotted_form (Some ''foo.bar'') (with_default (VStr [])))
        ''foo.bar'' = VStr []"
proof -
  have l: "later_keys (values_bag number_form) ''foo'' = [''bar'']"
    by (simp add: ex_defs later_keys_def keys_def)
  have o: "\<not> overlaps ''bar'' ''foo''" by (simp add: overlaps_def)
  have h: "\<forall>k \<in> set (later_keys (values_bag number_form) ''foo''). \<not> overlaps k ''foo''"
    unfolding l using o by simp
  have n: "''foo'' \<noteq> []" "\<not> has_dot ''foo''" by (simp_all add: has_dot_def)
  have t: "truthy (defaultValue (with_default (VStr ''7'')))"
    "\<not> isNil (defaultValue (with_default (VStr ''7'')))" "isNil (defaultValue no_context)"
    "\<not> isModel number_form"
    by (simp_all add: ex_defs)
  have d: "defaultValue (with_default (VStr ''7'')) = VStr ''7''" by (simp add: with_default_def)
  have f: "formatValue (js plain_args) (VStr ''7'') (map_of (parsers number_form) ''foo'') = VNum 7"
    "formatValue (js plain_args) (VNum 404) (map_of (parsers number_form) ''foo'') = VNum 404"
    by (simp_all add: ex_defs formatValue_def digit_coercions_def is_digit_def index_of_def
        digit_val_def getDefaultValue_def ember_get_def has_dot_def lookup_def nullish_or_def)
  have u: "nullish_or (getDefaultValue number_form ''foo'') VUndefined = VNum 404"
    by (simp add: ex_defs getDefaultValue_def ember_get_def has_dot_def lookup_def nullish_or_def)
  note t1 = rollback_field_default [OF n(1), of "with_default (VStr ''7'')" number_form plain_args]
  note t2 = rollback_field_default [OF n(1), of no_context number_form plain_args]
  have a: "lookup (values_bag (rollback number_form (Some ''foo'') (with_default (VStr ''7'')))) ''foo''
       = defaultValue (with_default (VStr ''7''))"
    "lookup (values_bag (rollback_ts number_form (Some ''foo'') (with_default (VStr ''7'')))) ''foo''
       = defaultValue (with_default (VStr ''7''))"
    "getDefaultValue (rollback number_form (Some ''foo'') (with_default (VStr ''7''))) ''foo''
       = defaultValue (with_default (VStr ''7''))"
    "getValue plain_args (rollback number_form (Some ''foo'') (with_default (VStr ''7''))) ''foo''
       = formatValue (js plain_args) (defaultValue (with_default (VStr ''7'')))
           (map_of (parsers number_form) ''foo'')"
    "getValue_ts plain_args (rollback_ts number_form (Some ''foo'') (with_default (VStr ''7'')))
        ''foo'' = formatValue (js plain_args) (defaultValue (with_default (VStr ''7'')))
           (map_of (parsers number_form) ''foo'')"
    using t1 n t h by blast+
  have b: "rollbackValues (rollback number_form (Some ''foo'') no_context) = rollbackValues number_form"
    "lookup (values_bag (rollback number_form (Some ''foo'') no_context)) ''foo''
       = nullish_or (getDefaultValue number_form ''foo'') VUndefined"
    "getValue plain_args (rollback number_form (Some ''foo'') no_context) ''foo''
       = formatValue (js plain_args) (nullish_or (getDefaultValue number_form ''foo'') VUndefined)
       (map_of (parsers number_form) ''foo'')"
    "getValue_ts plain_args (rollback_ts number_form (Some ''foo'') no_context) ''foo''
       = formatValue (js plain_args) (nullish_or (getDefaultValue number_form ''foo'') VUndefined)
       (map_of (parsers number_form) ''foo'')"
    using t2 n t h by blast+
  have l': "later_keys (values_bag dotted_form) ''foo.bar'' = [''baz'']"
    by (simp add: dotted_form_def new_store_def cloneDeep_bag_def later_keys_def keys_def)
  have o': "\<not> overlaps ''baz'' ''foo.bar''" by (simp add: overlaps_def)
  have h': "\<forall>k \<in> set (later_keys (values_bag dotted_form) ''foo.bar''). \<not> overlaps k ''foo.bar''"
    unfolding l' using o' by simp
  have n': "''foo.bar'' \<noteq> []" by simp
  have t': "\<not> isNil (defaultValue (with_default (VStr [])))" by (simp add: with_default_def)
  have d': "defaultValue (with_default (VStr [])) = VStr []" by (simp add: with_default_def)
  have f': "formatValue (js plain_args) (VStr []) (map_of (parsers dotted_form) ''foo.bar'')
      = VStr []"
    by (simp add: dotted_form_def new_store_def formatValue_def)
  note t3 = rollback_field_default [OF n', of "with_default (VStr [])" dotted_form plain_args]
  have c: "lookup (values_bag (rollback dotted_form (Some ''foo.bar'') (with_default (VStr []))))
        ''foo.bar'' = defaultValue (with_default (VStr []))"
    "getValue plain_args (rollback dotted_form (Some ''foo.bar'') (with_default (VStr [])))
        ''foo.bar'' = formatValue (js plain_args) (defaultValue (with_default (VStr [])))
           (map_of (parsers dotted_form) ''foo.bar'')"
    using t3 t' h' by blast+
  show ?thesis
    using n l o t a b n' l' o' t' c unfolding d u f d' f' by blast
qed

subsection \<open>What a validation writes\<close>

lemma lodash_set_flat:
  "\<not> has_dot f \<or> f \<in> set (keys es) \<Longrightarrow> lodash_set es f x = assign es f x"
  by (auto simp add: lodash_set_def castPath_def)

lemma lookup_lodash_set_other:
  "k \<noteq> hd (castPath f es) \<Longrightarrow> lookup (lodash_set es f x) k = lookup es k"
proof -
  assume k: "k \<noteq> hd (castPath f es)"
  obtain j js where c: "castPath f es = j # js"
    using castPath_not_Nil [of f es] by (cases "castPath f es") auto
  show ?thesis
    using k unfolding lodash_set_def c
    by (cases js) (simp_all add: lookup_assign Let_def)
qed

lemma getPath_lodash_set_nested:
  "has_dot f \<Longrightarrow> f \<notin> set (keys es) \<Longrightarrow>
   getPath (VObj (lodash_set es f x)) (split_dots f) = x"
  by (simp add: VObj_lodash_set castPath_def getPath_baseSet_same split_dots_not_Nil)

lemma apply_validation_cases:
  "\<not> given field \<Longrightarrow> errors (apply_validation s field validation) = validation"
  "f \<noteq> [] \<Longrightarrow> \<not> has_dot f \<or> f \<in> set (keys (errors s)) \<Longrightarrow>
     errors (apply_validation s (Some f) validation)
       = assign (errors s) f (ember_get validation f)"
  "f \<noteq> [] \<Longrightarrow> has_dot f \<Longrightarrow> f \<notin> set (keys (errors s)) \<Longrightarrow>
     getPath (VObj (errors (apply_validation s (Some f) validation))) (split_dots f)
       = ember_get validation f"
  "f \<noteq> [] \<Longrightarrow> has_dot f \<Longrightarrow> f \<notin> set (keys (errors s)) \<Longrightarrow> k \<noteq> hd (split_dots f) \<Longrightarrow>
     lookup (errors (apply_validation s (Some f) validation)) k = lookup (errors s) k"
     apply (simp add: apply_validation_def given_def split: option.splits)
    apply (simp add: apply_validation_def lodash_set_flat)
   apply (simp add: apply_validation_def getPath_lodash_set_nested)
  apply (simp add: apply_validation_def lookup_lodash_set_other castPath_def)
  done

lemma validate_ts_result:
  "validator a = Some v \<Longrightarrow> v (parsedValues_ts a s) = Inr validation \<Longrightarrow>
   fst (validate_ts a s field) = apply_validation s field validation"
  by (simp add: validate_ts_def)

lemma validate_result:
  "validator a = Some v \<Longrightarrow> v (parsedValues a s) = Inr validation \<Longrightarrow>
   errors (fst (validate a s field)) = errors (apply_validation s field validation)"
  by (simp add: validate_def settle_validation_def apply_validation_def split: option.splits)

text \<open>
  Where the write of \<open>validate\<close> does what is expected of it: without a field the error
  map becomes the result of the validator; with a field whose name has no dot, or is
  already a key of the error map, the entry of the field becomes the value that the
  result holds at the path of the field, and every other entry is as before.
\<close>

lemma validation_result_plain:
  "validator a = Some v \<Longrightarrow> v (parsedValues_ts a s) = Inr validation \<Longrightarrow>
   (\<not> given field \<longrightarrow> errors (fst (validate_ts a s field)) = validation)
   \<and> (f \<noteq> [] \<and> (\<not> has_dot f \<or> f \<in> set (keys (errors s))) \<longrightarrow>
        errors (fst (validate_ts a s (Some f))) = assign (errors s) f (ember_get validation f)
        \<and> lookup (errors (fst (validate_ts a s (Some f)))) f = ember_get validation f
        \<and> (\<forall>k. k \<noteq> f \<longrightarrow>
             lookup (errors (fst (validate_ts a s (Some f)))) k = lookup (errors s) k))"
  by (simp add: validate_ts_result apply_validation_cases lookup_assign)

text \<open>
  For a dotted field name that is not yet a key of the error map, whatever the validator
  reports, the entry that \<open>getFieldState\<close> reads for the field is the one it was before
  the validation, and the field is reported invalid exactly when it was before.
\<close>

lemma validate_ts_dotted_entry_untouched:
  assumes "validator a = Some v" and "v (parsedValues_ts a s) = Inr validation"
    and "has_dot f" and "f \<notin> set (keys (errors s))"
  shows "lookup (errors (fst (validate_ts a s (Some f)))) f = lookup (errors s) f"
    and "fs_isInvalid (getFieldState (fst (validate_ts a s (Some f))) f)
         = fs_isInvalid (getFieldState s f)"
proof -
  have n: "f \<noteq> []" using assms(3) by (auto simp add: has_dot_def)
  have h: "f \<noteq> hd (split_dots f)"
    using assms(3) hd_split_dots_no_dot [of f] by auto
  show 1: "lookup (errors (fst (validate_ts a s (Some f)))) f = lookup (errors s) f"
    unfolding validate_ts_result [OF assms(1) assms(2)]
    by (rule apply_validation_cases(4) [OF n assms(3) assms(4) h])
  show "fs_isInvalid (getFieldState (fst (validate_ts a s (Some f))) f)
         = fs_isInvalid (getFieldState s f)"
    by (simp add: getFieldState_def 1 Let_def)
qed

text \<open>
  C7 does not hold of the code for a field with a dotted name. The error map is keyed by
  the flat field name: \<open>setError('a.b', 'required')\<close> stores the error under the key
  \<open>a.b\<close>, which is where \<open>getFieldState('a.b')\<close> reads it. \<open>validate('a.b')\<close> writes with
  \<open>set(errors, field, get(validation, field))\<close>, which takes the name as a path. On a new
  form whose validator reports an error for \<open>a.b\<close>, the entry of \<open>a.b\<close> is not updated
  and the entry of another name, \<open>a\<close>, is: when the result is nested,
  \<open>{a: {b: [error]}}\<close>, the error map becomes \<open>{a: {b: [error]}}\<close>; when the result is
  keyed by the field name, \<open>{'a.b': [error]}\<close>, the path read finds nothing and the error
  map becomes \<open>{a: {b: undefined}}\<close>. Either way \<open>a\<close> is reported invalid and \<open>a.b\<close> is
  not. \<open>validate\<close> of \<open>formidable.gts\<close> writes in the same way.
\<close>

theorem validate_dotted_field:
  "errors (fst (validate_ts nested_args (new_store_ts False [] []) (Some ''a.b'')))
     = [(''a'', VObj [(''b'', required_error)])]
   \<and> lookup (errors (new_store_ts False [] [])) ''a'' = VUndefined
   \<and> fs_isInvalid (getFieldState
        (fst (validate_ts nested_args (new_store_ts False [] []) (Some ''a.b''))) ''a'')
   \<and> \<not> fs_isInvalid (getFieldState
        (fst (validate_ts nested_args (new_store_ts False [] []) (Some ''a.b''))) ''a.b'')
   \<and> errors (fst (validate_ts flat_args (new_store_ts False [] []) (Some ''a.b'')))
       = [(''a'', VObj [(''b'', VUndefined)])]
   \<and> fs_isInvalid (getFieldState
        (fst (validate_ts flat_args (new_store_ts False [] []) (Some ''a.b''))) ''a'')
   \<and> \<not> fs_isInvalid (getFieldState
        (fst (validate_ts flat_args (new_store_ts False [] []) (Some ''a.b''))) ''a.b'')
   \<and> errors (fst (validate nested_args (new_store []) (Some ''a.b'')))
       = [(''a'', VObj [(''b'', required_error)])]
   \<and> errors (fst (setError_ts (new_store_ts False [] []) ''a.b'' (VStr ''required'')))
       = [(''a.b'', required_error)]
   \<and> fs_isInvalid (getFieldState
        (fst (setError_ts (new_store_ts False [] []) ''a.b'' (VStr ''required''))) ''a.b'')"
  by (simp add: ex_defs op_defs setError_ts_def append_error_def error_record_def)

subsection \<open>Overlapping validation requests\<close>

text \<open>
  A call of \<open>validate\<close> with nothing in between is the request followed by its settling.
\<close>

lemma validate_as_events:
  "st (run_events a (start s) [Request field, Settle 0]) = fst (validate a s field)"
  by (simp add: run_events_def start_def validate_def Let_def split: option.splits)

lemma validate_ts_as_events:
  "st (run_events_ts a (start s) [Request field, Settle 0]) = fst (validate_ts a s field)"
  by (simp add: run_events_ts_def start_def validate_ts_def Let_def split: option.splits sum.splits)

lemma fresh_step_ts: "fresh_from n r \<Longrightarrow> fresh_from n (step_ts a r e)"
  by (cases e) (auto simp: fresh_from_def split: option.splits sum.splits)

lemma fresh_run_ts: "fresh_from n r \<Longrightarrow> fresh_from n (run_events_ts a r evs)"
  unfolding run_events_ts_def
  by (induction evs arbitrary: r) (simp_all add: fresh_step_ts)

lemma fresh_request_ts: "fresh_from (next_id r) (step_ts a r (Request field))"
  by (simp add: fresh_from_def split: option.splits)

lemma find_None_fresh: "fresh_from n r \<Longrightarrow> i < n \<Longrightarrow> find (\<lambda>p. fst p = i) (pending r) = None"
  by (auto simp: fresh_from_def find_None_iff)

lemma settle_stale_ts: "fresh_from n r \<Longrightarrow> i < n \<Longrightarrow> step_ts a r (Settle i) = r"
  by (simp add: find_None_fresh)

text \<open>
  C3, amended. In \<open>index.ts\<close>, where \<open>validate\<close> is a restartable task, once a request has
  been started the settling of any earlier request changes nothing, whatever happens in
  between. In \<open>formidable.gts\<close>, where \<open>validate\<close> is an \<open>async\<close> method, the result of
  every pending request is written when it settles, whether or not a later request has
  been started: the result of a whole-form validation replaces the error map.
\<close>

theorem superseded_validation:
  "(i < next_id r \<longrightarrow>
      run_events_ts a (step_ts a r (Request field)) (evs @ [Settle i])
        = run_events_ts a (step_ts a r (Request field)) evs)
   \<and> (find (\<lambda>p. fst p = i) (pending r) = Some (i, field', Inr validation) \<longrightarrow>
        st (step a r (Settle i)) = (apply_validation (st r) field' validation)\<lparr>isValidating := False\<rparr>
        \<and> (\<not> given field' \<longrightarrow> errors (st (step a r (Settle i))) = validation))"
proof -
  have 1: "run_events_ts a (step_ts a r (Request field)) (evs @ [Settle i])
        = run_events_ts a (step_ts a r (Request field)) evs" if "i < next_id r"
  proof -
    have "fresh_from (next_id r) (run_events_ts a (step_ts a r (Request field)) evs)"
      by (rule fresh_run_ts) (rule fresh_request_ts)
    from settle_stale_ts [OF this that] show ?thesis
      by (simp add: run_events_ts_def)
  qed
  have 2: "st (step a r (Settle i)) = (apply_validation (st r) field' validation)\<lparr>isValidating := False\<rparr>
        \<and> (\<not> given field' \<longrightarrow> errors (st (step a r (Settle i))) = validation)"
    if "find (\<lambda>p. fst p = i) (pending r) = Some (i, field', Inr validation)"
    using that
    by (simp add: settle_validation_def apply_validation_def given_def split: option.splits)
  from 1 2 show ?thesis by blast
qed

text \<open>
  C3 as stated fails in \<open>formidable.gts\<close>. The field \<open>foo\<close> is empty and required. A
  whole-form validation is requested; the user types \<open>ok\<close>; a second whole-form
  validation is requested. The second settles first and leaves the error map empty;
  then the first settles and its result, the error of \<open>foo\<close>, is written over it,
  although \<open>foo\<close> holds \<open>ok\<close>.
\<close>

theorem stale_validation_counterexample:
  "errors (st (run_events validating_args (start foo_form)
      [Request None, Act write_ok, Request None, Settle 1, Settle 0]))
     = [(''foo'', required_error)]
   \<and> errors (st (run_events validating_args (start foo_form)
      [Request None, Act write_ok, Request None, Settle 1])) = []
   \<and> getValue validating_args (st (run_events validating_args (start foo_form)
      [Request None, Act write_ok, Request None, Settle 1, Settle 0])) ''foo'' = VStr ''ok''"
  by (simp add: run_defs ex_defs op_defs)

theorem superseded_validation_witness:
  "0 < next_id (run_events_ts validating_args (start foo_form) [Request None, Act write_ok_ts])
   \<and> errors (st (run_events_ts validating_args
        (step_ts validating_args
           (run_events_ts validating_args (start foo_form) [Request None, Act write_ok_ts])
           (Request None))
        ([Settle 1] @ [Settle 0]))) = []
   \<and> find (\<lambda>p. fst p = 0) (pending (run_events validating_args (start foo_form) [Request None]))
       = Some (0, None, Inr [(''foo'', required_error)])
   \<and> \<not> given None
   \<and> errors (st (step validating_args (run_events validating_args (start foo_form) [Request None])
        (Settle 0))) = [(''foo'', required_error)]"
proof -
  let ?r = "run_events_ts validating_args (start foo_form) [Request None, Act write_ok_ts]"
  have n: "0 < next_id ?r" by (simp add: run_defs)
  have e: "errors (st (run_events_ts validating_args (step_ts validating_args ?r (Request None))
        [Settle 1])) = []"
    by (simp add: run_defs ex_defs op_defs)
  have f: "find (\<lambda>p. fst p = 0) (pending (run_events validating_args (start foo_form) [Request None]))
       = Some (0, None, Inr [(''foo'', required_error)])"
    by (simp add: run_defs ex_defs op_defs)
  have g: "\<not> given None" by (simp add: given_def)
  have 1: "run_events_ts validating_args (step_ts validating_args ?r (Request None))
        ([Settle 1] @ [Settle 0])
      = run_events_ts validating_args (step_ts validating_args ?r (Request None)) [Settle 1]"
    using n superseded_validation [of 0 ?r validating_args None "[Settle 1]"] by blast
  have 2: "errors (st (step validating_args
        (run_events validating_args (start foo_form) [Request None]) (Settle 0)))
      = [(''foo'', required_error)]"
    using f g
      superseded_validation [of 0 "run_events validating_args (start foo_form) [Request None]"
        validating_args _ _ None "[(''foo'', required_error)]"]
    by blast
  from n e f g 2 show ?thesis unfolding 1 by blast
qed

subsection \<open>Clearing an error in the later revision\<close>

text \<open>
  \<open>clearError\<close> of \<open>formidable.gts\<close> removes the entry of a name without a dot, where
  that of \<open>index.ts\<close> leaves the key behind (\<open>clearError_ts_leaves_key\<close>).
\<close>

lemma lodash_unset_plain: "\<not> has_dot f \<Longrightarrow> lodash_unset es f = delete es f"
  by (simp add: lodash_unset_def castPath_def)

lemma clearError_removes_key:
  "\<not> has_dot f \<Longrightarrow> f \<notin> set (keys (errors (clearError s f))) \<or> \<not> truthy (lookup (errors s) f)"
  by (auto simp add: clearError_def lodash_unset_plain delete_def keys_def)

end
